theory Spec2Isabelle
  imports Complex_Main "HOL-Library.Finite_Map" "HOL-Library.Sublist"
begin

section \<open>Data model\<close>

text \<open>
  The fan2go backend mixes Go integers, \<^verbatim>\<open>float64\<close> values, pointers to maps and rolling
  windows of the library \<^verbatim>\<open>asecurityteam/rolling\<close>.

  \<^item> Go \<^verbatim>\<open>int\<close> values are PWM duty cycles, loop counters up to 255 and truncated RPM
    averages; they are modelled by \<^typ>\<open>int\<close>, no computation here comes near the 64-bit
    range.
  \<^item> \<^verbatim>\<open>float64\<close> is idealised as \<^typ>\<open>real\<close>: arithmetic is exact, there is no NaN.
    Every concrete input below uses values whose results are exact in binary64 as well.
    The one place where Go would produce NaN is the average of an empty list or of a
    window without buckets; HOL's \<open>x / 0 = 0\<close> gives 0 there (\<open>Avg\<close>, \<open>rolling_Avg\<close>),
    and neither NaN converted to \<^verbatim>\<open>int\<close> nor 0 counts as a positive average.
  \<^item> a Go map is a finite map (\<^typ>\<open>('k, 'v) fmap\<close>), a pointer to a map is an
    \<^typ>\<open>'a option\<close> (\<open>None\<close> is \<^verbatim>\<open>nil\<close>), a slice is a list.
  \<^item> a panic, \<^verbatim>\<open>ui.Fatal\<close> and a returned \<^verbatim>\<open>error\<close> are values of \<open>go_error\<close>;
    a function that can fail returns \<open>go_error + 'a\<close>.
\<close>

type_synonym float64 = real

datatype go_error =
    NilPointerDereference
  | IndexOutOfRange int int
  | SliceBoundsOutOfRange
  | ErrInvalid
  | WriteError string
  | Fatal string

text \<open>Conversion \<^verbatim>\<open>int(x)\<close> of a \<^verbatim>\<open>float64\<close>: the fraction is discarded (truncation
  towards zero).\<close>

definition go_int :: "float64 \<Rightarrow> int" where
  "go_int x = (if 0 \<le> x then \<lfloor>x\<rfloor> else \<lceil>x\<rceil>)"

subsection \<open>Rolling windows\<close>

text \<open>
  \<^verbatim>\<open>rolling.NewPointPolicy(rolling.NewWindow(size))\<close> is a ring of \<open>size\<close> buckets holding
  one point each, all 0 at first, and a write offset. \<^verbatim>\<open>Append\<close> overwrites the bucket at
  the offset and advances the offset modulo the size; \<^verbatim>\<open>Reduce(rolling.Avg)\<close> divides the
  sum of all buckets by their number. The size is \<^verbatim>\<open>RpmRollingWindowSize\<close>, taken as a
  natural number (a negative size makes \<^verbatim>\<open>make\<close> panic inside \<^verbatim>\<open>NewWindow\<close>).
\<close>

record PointPolicy =
  windowSize :: nat
  window :: "float64 list"
  offset :: nat

definition createRollingWindow :: "nat \<Rightarrow> PointPolicy" where
  "createRollingWindow sz =
     \<lparr>windowSize = sz, window = replicate sz 0, offset = 0\<rparr>"

definition Append :: "PointPolicy \<Rightarrow> float64 \<Rightarrow> go_error + PointPolicy" where
  "Append w v =
     (if offset w < length (window w)
      then Inr (w\<lparr>window := (window w)[offset w := v],
                  offset := (offset w + 1) mod windowSize w\<rparr>)
      else Inl (IndexOutOfRange (int (offset w)) (int (length (window w)))))"

definition rolling_Avg :: "float64 list \<Rightarrow> float64" where
  "rolling_Avg points = sum_list points / real (length points)"

definition getWindowAvg :: "PointPolicy \<Rightarrow> float64" where
  "getWindowAvg w = rolling_Avg (window w)"

subsection \<open>Configuration\<close>

text \<open>
  The package \<^verbatim>\<open>configuration\<close> is not part of the sources at hand; the records below hold
  the fields the backend reads. \<^verbatim>\<open>Params\<close> is the outcome of the marshal/unmarshal round
  trip into \<^verbatim>\<open>HwMonFanParams\<close> (\<open>None\<close> when \<^verbatim>\<open>json.Unmarshal\<close> fails).
\<close>

datatype FanType = FanTypeHwMon | FanTypeFile

datatype SensorType = SensorTypeHwMon | SensorTypeFile

record HwMonFanParams =
  Platform_fanparams :: string
  Index_fanparams :: int

record HwMonSensorParams =
  Platform_sensorparams :: string
  Index_sensorparams :: int

record FanConfig =
  Id :: string
  Type :: FanType
  Params :: "HwMonFanParams option"

record SensorConfig =
  Id_sensor :: string
  Type_sensor :: SensorType
  Params_sensor :: "HwMonSensorParams option"

subsection \<open>Fans\<close>

record HwMonFan =
  Name :: string
  Label :: string
  Index :: int
  PwmOutput :: string
  RpmInput :: string
  RpmMovingAvg :: float64
  MinPwm :: int
  StartPwm :: int
  MaxPwm :: int
  FanCurveData :: "(int, PointPolicy) fmap option"
  LastSetPwm :: int
  OriginalPwmEnabled :: int
  Config :: "FanConfig option"

definition MaxPwmValue :: int where "MaxPwmValue = 255"
definition MinPwmValue :: int where "MinPwmValue = 0"
definition InitialLastSetPwm :: int where "InitialLastSetPwm = - 10"

section \<open>PWM boundaries\<close>

text \<open>
  The loop of \<^verbatim>\<open>GetPwmBoundaries\<close> over the sorted keys. The accumulators are
  \<^verbatim>\<open>maxRpm\<close>, \<^verbatim>\<open>startPwm\<close> and \<^verbatim>\<open>maxPwm\<close>. A key without an entry would hand a nil
  window to \<^verbatim>\<open>getWindowAvg\<close>.
\<close>

fun boundaries_loop ::
  "(int, PointPolicy) fmap \<Rightarrow> int list \<Rightarrow> int \<Rightarrow> int \<Rightarrow> int \<Rightarrow> go_error + (int \<times> int)" where
  "boundaries_loop pwmRpmMap [] maxRpm startPwm maxPwm = Inr (startPwm, maxPwm)"
| "boundaries_loop pwmRpmMap (pwm # keys) maxRpm startPwm maxPwm =
     (case fmlookup pwmRpmMap pwm of
        None \<Rightarrow> Inl NilPointerDereference
      | Some w \<Rightarrow>
          (let avgRpm = go_int (getWindowAvg w) in
           boundaries_loop pwmRpmMap keys
             (if avgRpm > maxRpm then avgRpm else maxRpm)
             (if avgRpm > 0 \<and> pwm < startPwm then pwm else startPwm)
             (if avgRpm > maxRpm then pwm else maxPwm)))"

text \<open>
  \<^verbatim>\<open>GetPwmBoundaries\<close> returns \<open>(startPwm, maxPwm)\<close>. The first thing it evaluates is
  \<^verbatim>\<open>len(*pwmRpmMap)\<close>, which dereferences the pointer; the guard
  \<^verbatim>\<open>pwmRpmMap == nil || len(keys) <= 0\<close> comes after it.
\<close>

definition GetPwmBoundaries :: "HwMonFan \<Rightarrow> go_error + (int \<times> int)" where
  "GetPwmBoundaries fan =
     (let pwmRpmMap = FanCurveData fan in
      case pwmRpmMap of
        None \<Rightarrow> Inl NilPointerDereference
      | Some m \<Rightarrow>
          (let keys = sorted_list_of_fset (fmdom m) in
           if pwmRpmMap = None \<or> int (length keys) \<le> 0
           then Inr (0, 255)
           else boundaries_loop m keys 0 255 255))"

text \<open>
  The derivation as the specification words it (section 4.8): \<open>K\<close> is the set of PWMs with
  a non-empty window, \<open>max_pwm\<close> the PWM of \<open>K\<close> with the greatest window mean (the smallest
  such PWM on a tie), \<open>start_pwm\<close> the smallest PWM of \<open>K\<close> with a positive mean, 0 if there
  is none; \<open>(0, 255)\<close> when \<open>K\<close> is empty.
\<close>

definition spec_avg :: "(int, PointPolicy) fmap \<Rightarrow> int \<Rightarrow> float64" where
  "spec_avg m k = (case fmlookup m k of None \<Rightarrow> 0 | Some w \<Rightarrow> getWindowAvg w)"

definition spec_pwm_boundaries :: "(int, PointPolicy) fmap \<Rightarrow> int \<times> int" where
  "spec_pwm_boundaries m =
     (let K = filter (\<lambda>k. case fmlookup m k of None \<Rightarrow> False | Some w \<Rightarrow> window w \<noteq> [])
                (sorted_list_of_fset (fmdom m))
      in case K of
           [] \<Rightarrow> (0, 255)
         | k0 # ks \<Rightarrow>
             (case filter (\<lambda>k. spec_avg m k > 0) K of [] \<Rightarrow> 0 | p # _ \<Rightarrow> p,
              fold (\<lambda>k best. if spec_avg m k > spec_avg m best then k else best) ks k0))"

text \<open>The truncated window average the loop compares, per key.\<close>

definition avgRpm_of :: "(int, PointPolicy) fmap \<Rightarrow> int \<Rightarrow> int" where
  "avgRpm_of m k = (case fmlookup m k of None \<Rightarrow> 0 | Some w \<Rightarrow> go_int (getWindowAvg w))"

section \<open>Attaching persisted curve data\<close>

text \<open>
  Modelled from the spec: \<^verbatim>\<open>util.Avg\<close> is not among the sources at hand; section 4.8 and 4.9
  speak of the mean of the values.
\<close>

definition Avg :: "float64 list \<Rightarrow> float64" where
  "Avg numbers = sum_list numbers / real (length numbers)"

text \<open>
  Modelled from the spec: \<^verbatim>\<open>util.Ratio\<close> is not among the sources at hand; section 4.9 asks
  for linear interpolation, so the ratio is the position of the target between the two
  ends of the range.
\<close>

definition Ratio :: "float64 \<Rightarrow> float64 \<Rightarrow> float64 \<Rightarrow> float64" where
  "Ratio target rangeMin rangeMax = (target - rangeMin) / (rangeMax - rangeMin)"

definition limit :: int where "limit = 255"

text \<open>The four variables \<^verbatim>\<open>AttachFanCurveData\<close> declares before its loop; Go starts them
  at zero.\<close>

record attach_vars =
  lastValueIdx :: int
  lastValueAvg :: float64
  nextValueIdx :: int
  nextValueAvg :: float64

text \<open>
  The inner loop \<^verbatim>\<open>for j := i; j <= limit; j++\<close>: every key it meets overwrites
  \<^verbatim>\<open>nextValueIdx\<close> and \<^verbatim>\<open>nextValueAvg\<close>; there is no \<^verbatim>\<open>break\<close>, and the test is
  \<^verbatim>\<open>containsKey\<close> alone, whatever the length of the slice.
\<close>

function find_next :: "(int, float64 list) fmap \<Rightarrow> int \<Rightarrow> int \<times> float64 \<Rightarrow> int \<times> float64" where
  "find_next curveData j (nIdx, nAvg) =
     (if j \<le> limit
      then find_next curveData (j + 1)
             (case fmlookup curveData j of
                Some pointValues \<Rightarrow> (j, Avg pointValues)
              | None \<Rightarrow> (nIdx, nAvg))
      else (nIdx, nAvg))"
  by pat_completeness auto
termination
  by (relation "measure (\<lambda>(c, j, p). nat (limit + 1 - j))") auto

text \<open>
  The body of the outer loop up to the point where \<^verbatim>\<open>pointValues\<close> is final. A missing
  key yields the nil slice, which is replaced by \<^verbatim>\<open>[lastValueAvg]\<close>; both branches after
  the search assign \<^verbatim>\<open>pointValues\<close> again, and \<^verbatim>\<open>copy(pointValues, valuesCopy)\<close> copies
  the zero elements of \<^verbatim>\<open>valuesCopy\<close>, so that \<^verbatim>\<open>pointValues = valuesCopy\<close> leaves the
  empty slice.
\<close>

definition attach_point ::
  "(int, float64 list) fmap \<Rightarrow> int \<Rightarrow> attach_vars \<Rightarrow> attach_vars \<times> float64 list" where
  "attach_point curveData i v =
     (let containsKey = (fmlookup curveData i \<noteq> None);
          pointValues = (case fmlookup curveData i of None \<Rightarrow> [] | Some pv \<Rightarrow> pv)
      in if containsKey \<and> length pointValues > 0
         then (v\<lparr>lastValueIdx := i, lastValueAvg := Avg pointValues\<rparr>, pointValues)
         else
           (let pointValues1 = (if \<not> containsKey then [lastValueAvg v] else pointValues);
                found = find_next curveData i (i, nextValueAvg v);
                v1 = v\<lparr>nextValueIdx := fst found, nextValueAvg := snd found\<rparr>
            in if nextValueIdx v1 = i
               then (let valuesCopy = [] in (v1, valuesCopy))
               else
                 (let ratio = Ratio (real_of_int i) (real_of_int (lastValueIdx v1))
                                (real_of_int (nextValueIdx v1));
                      interpolation =
                        lastValueAvg v1 + ratio * (nextValueAvg v1 - lastValueAvg v1)
                  in (v1, [interpolation]))))"

text \<open>
  The loop \<^verbatim>\<open>for k := 0; k < RpmRollingWindowSize; k++\<close> that fills the fresh window: the
  given values first, then the running value \<^verbatim>\<open>currentAvg\<close>.
\<close>

function fill_window ::
  "nat \<Rightarrow> float64 list \<Rightarrow> nat \<Rightarrow> float64 \<Rightarrow> PointPolicy \<Rightarrow> go_error + PointPolicy" where
  "fill_window sz pointValues k currentAvg w =
     (if k < sz
      then (let rpm = (if k < length pointValues then pointValues ! k else currentAvg);
                currentAvg' = (if k = 0 then rpm else (currentAvg + rpm) / 2)
            in case Append w rpm of
                 Inl e \<Rightarrow> Inl e
               | Inr w' \<Rightarrow> fill_window sz pointValues (k + 1) currentAvg' w')
      else Inr w)"
  by pat_completeness auto
termination
  by (relation "measure (\<lambda>(sz, p, k, a, w). sz - k)") auto

text \<open>
  The outer loop \<^verbatim>\<open>for i := 0; i <= limit; i++\<close>. The store \<^verbatim>\<open>(*data)[i] = ...\<close> goes
  through the fan's pointer to its curve data.
\<close>

function attach_loop ::
  "nat \<Rightarrow> (int, float64 list) fmap \<Rightarrow> int \<Rightarrow> attach_vars \<Rightarrow> HwMonFan \<Rightarrow> go_error + HwMonFan" where
  "attach_loop sz curveData i v fan =
     (if i \<le> limit
      then (let fanCurveMovingWindow = createRollingWindow sz;
                (v', pointValues) = attach_point curveData i v
            in case fill_window sz pointValues 0 0 fanCurveMovingWindow of
                 Inl e \<Rightarrow> Inl e
               | Inr w \<Rightarrow>
                   (case FanCurveData fan of
                      None \<Rightarrow> Inl NilPointerDereference
                    | Some data \<Rightarrow>
                        attach_loop sz curveData (i + 1) v'
                          (fan\<lparr>FanCurveData := Some (fmupd i w data)\<rparr>)))
      else Inr fan)"
  by pat_completeness auto
termination
  by (relation "measure (\<lambda>(sz, c, i, v, f). nat (limit + 1 - i))") auto

text \<open>
  \<^verbatim>\<open>AttachFanCurveData\<close>, with \<^verbatim>\<open>RpmRollingWindowSize\<close> as first argument. The error
  message of the first branch reads \<^verbatim>\<open>fan.GetConfig().Id\<close>, which needs the fan's
  configuration.
\<close>

definition attach_empty_error :: "HwMonFan \<Rightarrow> go_error" where
  "attach_empty_error fan =
     (case Config fan of None \<Rightarrow> NilPointerDereference | Some c \<Rightarrow> ErrInvalid)"

definition AttachFanCurveData ::
  "nat \<Rightarrow> (int, float64 list) fmap option \<Rightarrow> HwMonFan \<Rightarrow> go_error + HwMonFan" where
  "AttachFanCurveData sz curveData fan =
     (case curveData of
        None \<Rightarrow> Inl (attach_empty_error fan)
      | Some cd \<Rightarrow>
          if int (fcard (fmdom cd)) \<le> 0 then Inl (attach_empty_error fan)
          else
            (case attach_loop sz cd 0
                    \<lparr>lastValueIdx = 0, lastValueAvg = 0, nextValueIdx = 0, nextValueAvg = 0\<rparr>
                    fan of
               Inl e \<Rightarrow> Inl e
             | Inr fan1 \<Rightarrow>
                 (case GetPwmBoundaries fan1 of
                    Inl e \<Rightarrow> Inl e
                  | Inr (startPwm, maxPwm) \<Rightarrow>
                      Inr (fan1\<lparr>StartPwm := startPwm, MaxPwm := maxPwm,
                                MinPwm := startPwm\<rparr>))))"

text \<open>
  Three views of the loops above, used to state what they compute. \<open>fill_values\<close> lists
  the values the filling loop appends from step \<open>k\<close> on; \<open>vars_at\<close> gives the four loop
  variables at the start of iteration \<open>p\<close> when iteration \<open>i\<close> starts with \<open>v\<close>;
  \<open>has_values\<close> is the test \<^verbatim>\<open>containsKey && len(pointValues) > 0\<close>.
\<close>

function fill_values :: "nat \<Rightarrow> float64 list \<Rightarrow> nat \<Rightarrow> float64 \<Rightarrow> float64 list" where
  "fill_values sz pointValues k currentAvg =
     (if k < sz
      then (let rpm = (if k < length pointValues then pointValues ! k else currentAvg);
                currentAvg' = (if k = 0 then rpm else (currentAvg + rpm) / 2)
            in rpm # fill_values sz pointValues (k + 1) currentAvg')
      else [])"
  by pat_completeness auto
termination
  by (relation "measure (\<lambda>(sz, p, k, a). sz - k)") auto

function vars_at :: "(int, float64 list) fmap \<Rightarrow> int \<Rightarrow> attach_vars \<Rightarrow> int \<Rightarrow> attach_vars" where
  "vars_at curveData i v p =
     (if i < p then vars_at curveData (i + 1) (fst (attach_point curveData i v)) p else v)"
  by pat_completeness auto
termination
  by (relation "measure (\<lambda>(c, i, v, p). nat (p - i))") auto

definition has_values :: "(int, float64 list) fmap \<Rightarrow> int \<Rightarrow> bool" where
  "has_values curveData i =
     (case fmlookup curveData i of None \<Rightarrow> False | Some pointValues \<Rightarrow> length pointValues > 0)"

text \<open>The bucket contents of the window a fan holds for PWM \<open>p\<close> once
  \<^verbatim>\<open>AttachFanCurveData\<close> has returned; \<open>None\<close> if it did not return normally.\<close>

definition attached_window ::
  "nat \<Rightarrow> (int, float64 list) fmap option \<Rightarrow> HwMonFan \<Rightarrow> int \<Rightarrow> float64 list option" where
  "attached_window sz curveData fan p =
     (case AttachFanCurveData sz curveData fan of
        Inl e \<Rightarrow> None
      | Inr fan' \<Rightarrow>
          (case FanCurveData fan' of
             None \<Rightarrow> None
           | Some data \<Rightarrow> map_option window (fmlookup data p)))"

text \<open>
  The fill as section 4.9 of the specification words it: a PWM without values gets the
  linear interpolation between the averages of the nearest lower and the nearest higher
  PWM with values; below the lowest such PWM its average is repeated, above the highest
  the highest one's.
\<close>

definition spec_fill_avg :: "(int, float64 list) fmap \<Rightarrow> int \<Rightarrow> float64" where
  "spec_fill_avg curveData p =
     (let avg_at = (\<lambda>k. case fmlookup curveData k of None \<Rightarrow> 0 | Some pv \<Rightarrow> Avg pv) in
      if has_values curveData p then avg_at p
      else
        (case (find (has_values curveData) (rev [0..p - 1]),
               find (has_values curveData) [p + 1..limit]) of
           (Some lo, Some hi) \<Rightarrow>
             avg_at lo + Ratio (real_of_int p) (real_of_int lo) (real_of_int hi)
               * (avg_at hi - avg_at lo)
         | (None, Some hi) \<Rightarrow> avg_at hi
         | (Some lo, None) \<Rightarrow> avg_at lo
         | (None, None) \<Rightarrow> 0))"

section \<open>RPM sampling\<close>

text \<open>
  \<^verbatim>\<open>measureRpm\<close> for one fan. \<^verbatim>\<open>fan.GetPwm()\<close> and \<^verbatim>\<open>fan.GetRpm()\<close> read the hardware;
  their results are the arguments \<open>pwm\<close> and \<open>rpm\<close>. \<^verbatim>\<open>updateSimpleMovingAvg\<close> is not
  among the sources at hand and is a parameter. The debug line reads
  \<^verbatim>\<open>fan.GetConfig().Id\<close>; the window found or created under the key is appended to in
  place.
\<close>

definition measureRpm_fan ::
  "(float64 \<Rightarrow> nat \<Rightarrow> float64 \<Rightarrow> float64) \<Rightarrow> nat \<Rightarrow> int \<Rightarrow> int \<Rightarrow> HwMonFan \<Rightarrow> go_error + HwMonFan" where
  "measureRpm_fan updateSimpleMovingAvg sz pwm rpm fan =
     (case Config fan of
        None \<Rightarrow> Inl NilPointerDereference
      | Some c \<Rightarrow>
          (let updatedRpmAvg = updateSimpleMovingAvg (RpmMovingAvg fan) sz (real_of_int rpm);
               fan1 = fan\<lparr>RpmMovingAvg := updatedRpmAvg\<rparr>
           in case FanCurveData fan1 of
                None \<Rightarrow> Inl NilPointerDereference
              | Some pwmRpmMap \<Rightarrow>
                  (let pointWindow =
                         (case fmlookup pwmRpmMap pwm of
                            None \<Rightarrow> createRollingWindow sz
                          | Some w \<Rightarrow> w)
                   in case Append pointWindow (real_of_int rpm) of
                        Inl e \<Rightarrow> Inl e
                      | Inr w' \<Rightarrow> Inr (fan1\<lparr>FanCurveData := Some (fmupd pwm w' pwmRpmMap)\<rparr>))))"

text \<open>\<^verbatim>\<open>measureRpm(fanId)\<close> on the global \<^verbatim>\<open>FanMap\<close>; an unknown id yields the nil
  interface, on which \<^verbatim>\<open>GetPwm\<close> panics.\<close>

definition measureRpm ::
  "(float64 \<Rightarrow> nat \<Rightarrow> float64 \<Rightarrow> float64) \<Rightarrow> nat \<Rightarrow> string \<Rightarrow> int \<Rightarrow> int \<Rightarrow>
   (string, HwMonFan) fmap \<Rightarrow> go_error + (string, HwMonFan) fmap" where
  "measureRpm updateSimpleMovingAvg sz fanId pwm rpm FanMap =
     (case fmlookup FanMap fanId of
        None \<Rightarrow> Inl NilPointerDereference
      | Some fan \<Rightarrow>
          (case measureRpm_fan updateSimpleMovingAvg sz pwm rpm fan of
             Inl e \<Rightarrow> Inl e
           | Inr fan' \<Rightarrow> Inr (fmupd fanId fan' FanMap)))"

text \<open>
  The two copies of \<^verbatim>\<open>rpmMonitor\<close>. The \<^verbatim>\<open>select\<close> loop is driven by what arrives on the
  two channels: \<open>Done\<close> for the cancelled context, \<open>Tick\<close> for a tick, carrying what the
  hardware reads at that moment. On a finite run of events the loop has returned, is
  still waiting, or has panicked. The first copy (with \<^verbatim>\<open>MapConfigToControllers\<close>) calls
  \<^verbatim>\<open>measureRpm\<close>; in the later copy (with \<^verbatim>\<open>InitializeObjects\<close>) the call is commented out
  under a TODO.
\<close>

datatype monitor_event = Done | Tick int int

datatype 's outcome = Returned 's | Waiting 's | Panicked go_error

fun rpmMonitor ::
  "(float64 \<Rightarrow> nat \<Rightarrow> float64 \<Rightarrow> float64) \<Rightarrow> nat \<Rightarrow> string \<Rightarrow> monitor_event list \<Rightarrow>
   (string, HwMonFan) fmap \<Rightarrow> (string, HwMonFan) fmap outcome" where
  "rpmMonitor upd sz fanId [] FanMap = Waiting FanMap"
| "rpmMonitor upd sz fanId (Done # evs) FanMap = Returned FanMap"
| "rpmMonitor upd sz fanId (Tick pwm rpm # evs) FanMap =
     (case measureRpm upd sz fanId pwm rpm FanMap of
        Inl e \<Rightarrow> Panicked e
      | Inr FanMap' \<Rightarrow> rpmMonitor upd sz fanId evs FanMap')"

fun rpmMonitor_later ::
  "string \<Rightarrow> monitor_event list \<Rightarrow> (string, HwMonFan) fmap \<Rightarrow> (string, HwMonFan) fmap outcome" where
  "rpmMonitor_later fanId [] FanMap = Waiting FanMap"
| "rpmMonitor_later fanId (Done # evs) FanMap = Returned FanMap"
| "rpmMonitor_later fanId (Tick pwm rpm # evs) FanMap = rpmMonitor_later fanId evs FanMap"

text \<open>
  What the sources at hand do to a fan object once it has been initialised: a sample of
  \<^verbatim>\<open>measureRpm\<close> or another \<^verbatim>\<open>AttachFanCurveData\<close>. A run of such events stops at the
  first failure.
\<close>

datatype fan_event = Sample int int | Attach "(int, float64 list) fmap option"

fun fan_after ::
  "(float64 \<Rightarrow> nat \<Rightarrow> float64 \<Rightarrow> float64) \<Rightarrow> nat \<Rightarrow> fan_event list \<Rightarrow> HwMonFan \<Rightarrow> go_error + HwMonFan" where
  "fan_after upd sz [] fan = Inr fan"
| "fan_after upd sz (Sample pwm rpm # evs) fan =
     (case measureRpm_fan upd sz pwm rpm fan of
        Inl e \<Rightarrow> Inl e
      | Inr fan' \<Rightarrow> fan_after upd sz evs fan')"
| "fan_after upd sz (Attach curveData # evs) fan =
     (case AttachFanCurveData sz curveData fan of
        Inl e \<Rightarrow> Inl e
      | Inr fan' \<Rightarrow> fan_after upd sz evs fan')"

section \<open>Device discovery\<close>

text \<open>
  What discovery reads from the machine: \<^verbatim>\<open>ioutil.ReadFile\<close> with the error dropped (the
  content is empty when the read fails), \<^verbatim>\<open>util.FindFilesMatching\<close>, which is not among
  the sources at hand, and the read of \<^verbatim>\<open>pwmN_enable\<close> behind \<^verbatim>\<open>fan.GetPwmEnabled()\<close>,
  by PWM output path (\<open>None\<close> when it returns an error).
\<close>

record sysfs =
  ReadFile :: "string \<Rightarrow> string"
  FindFilesMatching :: "string \<Rightarrow> string \<Rightarrow> string list"
  GetPwmEnabled :: "string \<Rightarrow> int option"

text \<open>\<^verbatim>\<open>filepath.Split\<close> cuts after the last separator; \<^verbatim>\<open>strings.TrimSuffix\<close>;
  \<^verbatim>\<open>strings.TrimSpace\<close> on ASCII white space.\<close>

definition filepath_Split :: "string \<Rightarrow> string \<times> string" where
  "filepath_Split path =
     (let file = rev (takeWhile (\<lambda>c. c \<noteq> CHR ''/'') (rev path))
      in (take (length path - length file) path, file))"

definition TrimSuffix :: "string \<Rightarrow> string \<Rightarrow> string" where
  "TrimSuffix s suf = (if suffix suf s then take (length s - length suf) s else s)"

definition is_space :: "char \<Rightarrow> bool" where
  "is_space c \<longleftrightarrow> c \<in> set [CHR '' '', CHR 0x09, CHR 0x0A, CHR 0x0B, CHR 0x0C, CHR 0x0D]"

definition TrimSpace :: "string \<Rightarrow> string" where
  "TrimSpace s = rev (dropWhile is_space (rev (dropWhile is_space s)))"

definition GetLabel :: "sysfs \<Rightarrow> string \<Rightarrow> string \<Rightarrow> string" where
  "GetLabel fs devicePath input =
     (let labelPath = TrimSuffix (devicePath @ ''/'' @ input) ''input'' @ ''label'';
          content = ReadFile fs labelPath;
          label = (if int (length content) \<le> 0 then snd (filepath_Split devicePath) else content)
      in TrimSpace label)"

text \<open>
  \<^verbatim>\<open>strconv.Atoi(file[len(file)-1:])\<close>: the slice expression panics on the empty name,
  \<^verbatim>\<open>Atoi\<close> of one byte succeeds on a decimal digit, and \<^verbatim>\<open>ui.Fatal\<close> ends the process
  otherwise.
\<close>

definition Atoi_last :: "string \<Rightarrow> go_error + int" where
  "Atoi_last file =
     (if file = [] then Inl SliceBoundsOutOfRange
      else (let c = (of_char (last file) :: nat)
            in if 48 \<le> c \<and> c \<le> 57 then Inr (int c - 48)
               else Inl (Fatal ''strconv.Atoi: parsing: invalid syntax'')))"

text \<open>
  The loop of \<^verbatim>\<open>createFans\<close> (the copy next to \<^verbatim>\<open>MapConfigToControllers\<close>) over
  \<^verbatim>\<open>outputs\<close>, with the running index \<open>idx\<close> and the list built so far. The composite
  literal evaluates \<^verbatim>\<open>inputs[idx]\<close>. When \<^verbatim>\<open>GetPwmEnabled\<close> fails, the arguments of
  \<^verbatim>\<open>ui.Fatal\<close> read \<^verbatim>\<open>fan.GetConfig().Id\<close> of a fan that has no configuration yet.
\<close>

fun createFans_loop ::
  "sysfs \<Rightarrow> string \<Rightarrow> string list \<Rightarrow> nat \<Rightarrow> string list \<Rightarrow> HwMonFan list \<Rightarrow>
   go_error + HwMonFan list" where
  "createFans_loop fs devicePath inputs idx [] fanList = Inr fanList"
| "createFans_loop fs devicePath inputs idx (output # outputs) fanList =
     (let file = snd (filepath_Split output);
          label = GetLabel fs devicePath output
      in case Atoi_last file of
           Inl e \<Rightarrow> Inl e
         | Inr index \<Rightarrow>
             if idx < length inputs
             then (let fan = \<lparr>Name = file, Label = label, Index = index, PwmOutput = output,
                               RpmInput = inputs ! idx, RpmMovingAvg = 0,
                               MinPwm = MinPwmValue, StartPwm = 0, MaxPwm = MaxPwmValue,
                               FanCurveData = Some fmempty, LastSetPwm = InitialLastSetPwm,
                               OriginalPwmEnabled = 0, Config = None\<rparr>
                   in case GetPwmEnabled fs (PwmOutput fan) of
                        None \<Rightarrow> Inl NilPointerDereference
                      | Some pwmEnabled \<Rightarrow>
                          createFans_loop fs devicePath inputs (idx + 1) outputs
                            (fanList @ [fan\<lparr>OriginalPwmEnabled := pwmEnabled\<rparr>]))
             else Inl (IndexOutOfRange (int idx) (int (length inputs))))"

definition createFans :: "sysfs \<Rightarrow> string \<Rightarrow> go_error + HwMonFan list" where
  "createFans fs devicePath =
     (let inputs = FindFilesMatching fs devicePath ''^fan[1-9]_input$'';
          outputs = FindFilesMatching fs devicePath ''^pwm[1-9]$''
      in createFans_loop fs devicePath inputs 0 outputs [])"

text \<open>
  \<^verbatim>\<open>findPlatform\<close> is \<^verbatim>\<open>FindString\<close> of the expression \<^verbatim>\<open>.*/platform/{}/.*\<close>. Go's syntax
  takes a brace that does not open a repetition as the character itself, so the
  expression asks for the text \<^verbatim>\<open>/platform/{}/\<close> between two runs of characters other
  than newline. The leftmost match starts at the beginning of the first line that holds
  that text, and the two greedy runs extend it to the whole line; without such a line
  the result is the empty string.
\<close>

fun split_lines :: "string \<Rightarrow> string list" where
  "split_lines [] = [[]]"
| "split_lines (c # cs) =
     (if c = CHR 0x0A then [] # split_lines cs
      else (case split_lines cs of l # ls \<Rightarrow> (c # l) # ls | [] \<Rightarrow> [[c]]))"

definition findPlatform :: "string \<Rightarrow> string" where
  "findPlatform devicePath =
     (case find (sublist ''/platform/{}/'') (split_lines devicePath) of
        None \<Rightarrow> []
      | Some line \<Rightarrow> line)"

text \<open>The choice of the platform in \<^verbatim>\<open>FindControllers\<close>, given the identifier computed
  for the device.\<close>

definition FindControllers_platform :: "string \<Rightarrow> string \<Rightarrow> string" where
  "FindControllers_platform devicePath identifier =
     (let platform = findPlatform devicePath
      in if int (length platform) \<le> 0 then identifier else platform)"

section \<open>Binding the configuration\<close>

text \<open>
  Sensors and controllers as discovery builds them, and the parts of
  \<^verbatim>\<open>configuration.CurrentConfig\<close> the start-up reads. The packages \<^verbatim>\<open>sensors\<close> and
  \<^verbatim>\<open>configuration\<close> are not among the sources at hand; the records hold the fields the
  backend uses.
\<close>

record HwmonSensor =
  Name_sensor :: string
  Label_sensor :: string
  Index_sensor :: int
  Input :: string
  Config_sensor :: "SensorConfig option"
  MovingAvg :: float64

record HwMonController =
  Name_controller :: string
  DType :: string
  Modalias :: string
  Platform :: string
  Path :: string
  Fans :: "HwMonFan list"
  Sensors :: "HwmonSensor list"

record CurveConfig =
  Id_curve :: string

record Configuration =
  Fans_config :: "FanConfig list"
  Sensors_config :: "SensorConfig list"
  Curves :: "CurveConfig list"

text \<open>
  \<^verbatim>\<open>findFanConfig\<close> and \<^verbatim>\<open>findSensorConfig\<close> return the first configuration of type hwmon
  whose platform and index are those of the controller and of the fan or sensor; a
  parameter block that does not unmarshal ends the process.
\<close>

fun findFanConfig :: "FanConfig list \<Rightarrow> HwMonController \<Rightarrow> HwMonFan \<Rightarrow> go_error + FanConfig option" where
  "findFanConfig [] controller fan = Inr None"
| "findFanConfig (fanConfig # rest) controller fan =
     (if Type fanConfig = FanTypeHwMon
      then (case Params fanConfig of
              None \<Rightarrow> Inl (Fatal ''Couldn't unmarshal fan parameter configuration'')
            | Some c \<Rightarrow>
                if Platform controller = Platform_fanparams c \<and> Index fan = Index_fanparams c
                then Inr (Some fanConfig)
                else findFanConfig rest controller fan)
      else findFanConfig rest controller fan)"

fun findSensorConfig ::
  "SensorConfig list \<Rightarrow> HwMonController \<Rightarrow> HwmonSensor \<Rightarrow> go_error + SensorConfig option" where
  "findSensorConfig [] controller sensor = Inr None"
| "findSensorConfig (sensorConfig # rest) controller sensor =
     (if Type_sensor sensorConfig = SensorTypeHwMon
      then (case Params_sensor sensorConfig of
              None \<Rightarrow> Inl (Fatal ''Couldn't unmarshal sensor parameter configuration'')
            | Some c \<Rightarrow>
                if Platform controller = Platform_sensorparams c
                   \<and> Index_sensor sensor = Index_sensorparams c
                then Inr (Some sensorConfig)
                else findSensorConfig rest controller sensor)
      else findSensorConfig rest controller sensor)"

text \<open>
  The two inner loops of \<^verbatim>\<open>MapConfigToControllers\<close>. Fans and sensors are shared objects:
  \<^verbatim>\<open>SetConfig\<close> changes the fan held by the controller, and the same fan is entered in
  \<^verbatim>\<open>FanMap\<close>. The loops return the updated list with the updated map.
  \<^verbatim>\<open>sensor.GetValue()\<close> reads the hardware; its result is given by \<open>GetValue\<close> per input
  path, \<open>None\<close> for an error.
\<close>

fun map_fans ::
  "FanConfig list \<Rightarrow> HwMonController \<Rightarrow> HwMonFan list \<Rightarrow> (string, HwMonFan) fmap \<Rightarrow>
   go_error + (HwMonFan list \<times> (string, HwMonFan) fmap)" where
  "map_fans cfgs controller [] FanMap = Inr ([], FanMap)"
| "map_fans cfgs controller (fan # fans) FanMap =
     (case findFanConfig cfgs controller fan of
        Inl e \<Rightarrow> Inl e
      | Inr None \<Rightarrow>
          (case map_fans cfgs controller fans FanMap of
             Inl e \<Rightarrow> Inl e
           | Inr (fans', FanMap') \<Rightarrow> Inr (fan # fans', FanMap'))
      | Inr (Some fanConfig) \<Rightarrow>
          (let fan1 = fan\<lparr>Config := Some fanConfig\<rparr>
           in case map_fans cfgs controller fans (fmupd (Id fanConfig) fan1 FanMap) of
                Inl e \<Rightarrow> Inl e
              | Inr (fans', FanMap') \<Rightarrow> Inr (fan1 # fans', FanMap')))"

fun map_sensors ::
  "SensorConfig list \<Rightarrow> (string \<Rightarrow> float64 option) \<Rightarrow> HwMonController \<Rightarrow> HwmonSensor list \<Rightarrow>
   (string, HwmonSensor) fmap \<Rightarrow> go_error + (HwmonSensor list \<times> (string, HwmonSensor) fmap)" where
  "map_sensors cfgs GetValue controller [] SensorMap = Inr ([], SensorMap)"
| "map_sensors cfgs GetValue controller (sensor # sensors) SensorMap =
     (case findSensorConfig cfgs controller sensor of
        Inl e \<Rightarrow> Inl e
      | Inr None \<Rightarrow>
          (case map_sensors cfgs GetValue controller sensors SensorMap of
             Inl e \<Rightarrow> Inl e
           | Inr (sensors', SensorMap') \<Rightarrow> Inr (sensor # sensors', SensorMap'))
      | Inr (Some sensorConfig) \<Rightarrow>
          (case GetValue (Input sensor) of
             None \<Rightarrow> Inl (Fatal ''Error reading sensor'')
           | Some currentValue \<Rightarrow>
               (let sensor1 = sensor\<lparr>Config_sensor := Some sensorConfig,
                                      MovingAvg := currentValue\<rparr>
                in case map_sensors cfgs GetValue controller sensors
                          (fmupd (Id_sensor sensorConfig) sensor1 SensorMap) of
                     Inl e \<Rightarrow> Inl e
                   | Inr (sensors', SensorMap') \<Rightarrow> Inr (sensor1 # sensors', SensorMap'))))"

record bound =
  controllers_of :: "HwMonController list"
  FanMap_of :: "(string, HwMonFan) fmap"
  SensorMap_of :: "(string, HwmonSensor) fmap"

fun MapConfigToControllers ::
  "Configuration \<Rightarrow> (string \<Rightarrow> float64 option) \<Rightarrow> HwMonController list \<Rightarrow>
   (string, HwMonFan) fmap \<Rightarrow> (string, HwmonSensor) fmap \<Rightarrow> go_error + bound" where
  "MapConfigToControllers cfg GetValue [] FanMap SensorMap =
     Inr \<lparr>controllers_of = [], FanMap_of = FanMap, SensorMap_of = SensorMap\<rparr>"
| "MapConfigToControllers cfg GetValue (controller # controllers) FanMap SensorMap =
     (case map_fans (Fans_config cfg) controller (Fans controller) FanMap of
        Inl e \<Rightarrow> Inl e
      | Inr (fans', FanMap1) \<Rightarrow>
          (case map_sensors (Sensors_config cfg) GetValue controller (Sensors controller)
                  SensorMap of
             Inl e \<Rightarrow> Inl e
           | Inr (sensors', SensorMap1) \<Rightarrow>
               (case MapConfigToControllers cfg GetValue controllers FanMap1 SensorMap1 of
                  Inl e \<Rightarrow> Inl e
                | Inr b \<Rightarrow>
                    Inr (b\<lparr>controllers_of :=
                             controller\<lparr>Fans := fans', Sensors := sensors'\<rparr>
                               # controllers_of b\<rparr>))))"

text \<open>
  \<^verbatim>\<open>Run\<close> up to the point where the tasks start: the owner of the process, the
  controllers \<^verbatim>\<open>FindControllers\<close> returned (its error result is always nil), the binding,
  the curves (\<^verbatim>\<open>NewSpeedCurve\<close> is not among the sources at hand; the parameter says
  whether it ends the process), and the count of the fans that have a configuration, which
  must not be 0. Registering the sensor monitors and the tasks of a fan does not fail.
\<close>

fun new_curves :: "(CurveConfig \<Rightarrow> go_error option) \<Rightarrow> CurveConfig list \<Rightarrow> go_error option" where
  "new_curves NewSpeedCurve [] = None"
| "new_curves NewSpeedCurve (curveConfig # rest) =
     (case NewSpeedCurve curveConfig of
        Some e \<Rightarrow> Some e
      | None \<Rightarrow> new_curves NewSpeedCurve rest)"

definition count_fans :: "HwMonController list \<Rightarrow> nat" where
  "count_fans controllers =
     length (filter (\<lambda>fan. Config fan \<noteq> None) (concat (map Fans controllers)))"

definition Run_startup ::
  "string \<Rightarrow> Configuration \<Rightarrow> (CurveConfig \<Rightarrow> go_error option) \<Rightarrow> (string \<Rightarrow> float64 option) \<Rightarrow>
   HwMonController list \<Rightarrow> go_error + bound" where
  "Run_startup owner cfg NewSpeedCurve GetValue controllers =
     (if owner \<noteq> ''root''
      then Inl (Fatal ''Fan control requires root permissions'')
      else
        (case MapConfigToControllers cfg GetValue controllers fmempty fmempty of
           Inl e \<Rightarrow> Inl e
         | Inr b \<Rightarrow>
             (case new_curves NewSpeedCurve (Curves cfg) of
                Some e \<Rightarrow> Inl e
              | None \<Rightarrow>
                  if count_fans (controllers_of b) = 0
                  then Inl (Fatal ''No valid fan configurations, exiting.'')
                  else Inr b)))"

text \<open>A discovered fan after the binding: it carries the configuration
  \<^verbatim>\<open>findFanConfig\<close> found for it, if any.\<close>

definition bound_fan :: "FanConfig list \<Rightarrow> HwMonController \<Rightarrow> HwMonFan \<Rightarrow> HwMonFan" where
  "bound_fan cfgs controller fan =
     (case findFanConfig cfgs controller fan of
        Inr (Some fanConfig) \<Rightarrow> fan\<lparr>Config := Some fanConfig\<rparr>
      | _ \<Rightarrow> fan)"

section \<open>Restoring a fan\<close>

text \<open>
  The function \<^verbatim>\<open>Run\<close> registers to interrupt a fan controller. \<^verbatim>\<open>fan.SetPwmEnabled\<close> and
  \<^verbatim>\<open>setPwm\<close> are not among the sources at hand: they are parameters that act on the state
  of the hardware and may return an error. The function is modelled with the trace of the
  calls it makes; of the log lines, the trace keeps the warning. The warning reads
  \<^verbatim>\<open>fan.GetConfig().Id\<close>.
\<close>

datatype io_call =
    Call_SetPwmEnabled int
  | Call_setPwm int
  | Call_Warning string
  | Call_panic go_error

record 'hw fan_io =
  SetPwmEnabled :: "HwMonFan \<Rightarrow> int \<Rightarrow> 'hw \<Rightarrow> go_error option \<times> 'hw"
  setPwm :: "HwMonFan \<Rightarrow> int \<Rightarrow> 'hw \<Rightarrow> go_error option \<times> 'hw"

definition restore_max :: "'hw fan_io \<Rightarrow> HwMonFan \<Rightarrow> 'hw \<Rightarrow> io_call list \<times> 'hw" where
  "restore_max io fan hw =
     (case setPwm io fan MaxPwmValue hw of
        (None, hw') \<Rightarrow> ([Call_setPwm MaxPwmValue], hw')
      | (Some e, hw') \<Rightarrow>
          (case Config fan of
             None \<Rightarrow> ([Call_setPwm MaxPwmValue, Call_panic NilPointerDereference], hw')
           | Some c \<Rightarrow>
               ([Call_setPwm MaxPwmValue,
                 Call_Warning (''Unable to restore fan '' @ Id c @ '', make sure it is running!'')],
                hw')))"

definition restore_fan :: "'hw fan_io \<Rightarrow> HwMonFan \<Rightarrow> 'hw \<Rightarrow> io_call list \<times> 'hw" where
  "restore_fan io fan hw =
     (if OriginalPwmEnabled fan \<noteq> 1
      then (case SetPwmEnabled io fan (OriginalPwmEnabled fan) hw of
              (None, hw') \<Rightarrow> ([Call_SetPwmEnabled (OriginalPwmEnabled fan)], hw')
            | (Some e, hw') \<Rightarrow>
                (let (calls, hw'') = restore_max io fan hw'
                 in (Call_SetPwmEnabled (OriginalPwmEnabled fan) # calls, hw'')))
      else restore_max io fan hw)"

text \<open>
  Modelled from the spec: the hardware of one fan for the concrete inputs, the two files
  \<^verbatim>\<open>pwmN_enable\<close> and \<^verbatim>\<open>pwmN\<close> of section 6, with writes that succeed; before a PWM is
  written the enable mode is forced to 1 (section 4.5). \<open>stuck_io\<close> refuses every write.
\<close>

record fan_files =
  pwm_enable_file :: int
  pwm_file :: int

definition working_io :: "fan_files fan_io" where
  "working_io =
     \<lparr>SetPwmEnabled = (\<lambda>fan v hw. (None, hw\<lparr>pwm_enable_file := v\<rparr>)),
      setPwm = (\<lambda>fan v hw. (None, hw\<lparr>pwm_enable_file := 1, pwm_file := v\<rparr>))\<rparr>"

definition stuck_io :: "fan_files fan_io" where
  "stuck_io =
     \<lparr>SetPwmEnabled = (\<lambda>fan v hw. (Some (WriteError ''pwm_enable''), hw)),
      setPwm = (\<lambda>fan v hw. (Some (WriteError ''pwm''), hw))\<rparr>"

text \<open>The order of the three PWM bounds of a fan (section 3 of the specification), and
  the condition that the keys of its curve data are PWM values.\<close>

definition pwm_ordered :: "HwMonFan \<Rightarrow> bool" where
  "pwm_ordered fan \<longleftrightarrow>
     0 \<le> MinPwm fan \<and> MinPwm fan \<le> StartPwm fan \<and> StartPwm fan \<le> MaxPwm fan \<and> MaxPwm fan \<le> 255"

definition pwm_keys :: "HwMonFan \<Rightarrow> bool" where
  "pwm_keys fan \<longleftrightarrow>
     (case FanCurveData fan of
        None \<Rightarrow> True
      | Some data \<Rightarrow> list_all (\<lambda>k. 0 \<le> k \<and> k \<le> 255) (sorted_list_of_fset (fmdom data)))"

section \<open>Concrete inputs\<close>

definition full_window :: "float64 list \<Rightarrow> PointPolicy" where
  "full_window vs = \<lparr>windowSize = length vs, window = vs, offset = 0\<rparr>"

text \<open>A fan as \<^verbatim>\<open>createFans\<close> builds it for \<^verbatim>\<open>pwm1\<close> of a device, with the given curve
  data and original enable mode.\<close>

definition example_fan :: "(int, PointPolicy) fmap option \<Rightarrow> int \<Rightarrow> HwMonFan" where
  "example_fan d e =
     \<lparr>Name = ''pwm1'', Label = ''hwmon1'', Index = 1,
      PwmOutput = ''/sys/class/hwmon/hwmon1/pwm1'',
      RpmInput = ''/sys/class/hwmon/hwmon1/fan1_input'',
      RpmMovingAvg = 0, MinPwm = MinPwmValue, StartPwm = 0, MaxPwm = MaxPwmValue,
      FanCurveData = d, LastSetPwm = InitialLastSetPwm, OriginalPwmEnabled = e,
      Config = None\<rparr>"

definition data_stalled :: "(int, PointPolicy) fmap" where
  "data_stalled = fmap_of_list [(10, full_window [0])]"

definition data_slow :: "(int, PointPolicy) fmap" where
  "data_slow = fmap_of_list [(10, full_window [1 / 2])]"

definition data_ramp :: "(int, PointPolicy) fmap" where
  "data_ramp = fmap_of_list
     [(10, full_window [0, 0]), (20, full_window [900, 1100]),
      (30, full_window [2000, 2001]), (40, full_window [2001, 2000])]"

definition sparse_curve :: "(int, float64 list) fmap" where
  "sparse_curve = fmap_of_list [(8, [100]), (16, [200]), (32, [100])]"

definition example_config :: FanConfig where
  "example_config =
     \<lparr>Id = ''cpu_fan'', Type = FanTypeHwMon,
      Params = Some \<lparr>Platform_fanparams = ''nct6798'', Index_fanparams = 1\<rparr>\<rparr>"

definition configured_fan :: HwMonFan where
  "configured_fan = (example_fan (Some fmempty) 2)\<lparr>Config := Some example_config\<rparr>"

definition example_moving_avg :: "float64 \<Rightarrow> nat \<Rightarrow> float64 \<Rightarrow> float64" where
  "example_moving_avg oldAvg n newValue = oldAvg + (1 / real n) * (newValue - oldAvg)"

definition example_sysfs :: sysfs where
  "example_sysfs =
     \<lparr>ReadFile = (\<lambda>path. []),
      FindFilesMatching = (\<lambda>dir expr.
         if expr = ''^pwm[1-9]$'' then [dir @ ''/pwm1'', dir @ ''/pwm2'']
         else if expr = ''^fan[1-9]_input$'' then [dir @ ''/fan1_input'']
         else []),
      GetPwmEnabled = (\<lambda>output. Some 2)\<rparr>"

definition unmatched_config :: FanConfig where
  "unmatched_config =
     \<lparr>Id = ''gpu_fan'', Type = FanTypeHwMon,
      Params = Some \<lparr>Platform_fanparams = ''amdgpu'', Index_fanparams = 1\<rparr>\<rparr>"

definition unmatched_sensor :: SensorConfig where
  "unmatched_sensor =
     \<lparr>Id_sensor = ''board_temp'', Type_sensor = SensorTypeHwMon,
      Params_sensor = Some \<lparr>Platform_sensorparams = ''it8620'', Index_sensorparams = 3\<rparr>\<rparr>"

definition example_controller :: HwMonController where
  "example_controller =
     \<lparr>Name_controller = ''nct6798'', DType = [], Modalias = ''platform:nct6775'',
      Platform = ''nct6798'', Path = ''/sys/class/hwmon/hwmon1'',
      Fans = [example_fan (Some fmempty) 2], Sensors = []\<rparr>"

definition example_configuration :: Configuration where
  "example_configuration =
     \<lparr>Fans_config = [example_config, unmatched_config],
      Sensors_config = [unmatched_sensor], Curves = []\<rparr>"

definition single_curve :: "(int, float64 list) fmap" where
  "single_curve = fmap_of_list [(8, [100])]"

definition dense_curve :: "(int, float64 list) fmap" where
  "dense_curve = fmap_of_list (map (\<lambda>i. (i, [100, 200])) [0..255])"

definition example_FanMap :: "(string, HwMonFan) fmap" where
  "example_FanMap = fmupd ''cpu_fan'' configured_fan fmempty"

section \<open>Properties of the PWM boundaries\<close>

lemma boundaries_loop_total:
  "set ks \<subseteq> fset (fmdom m) \<Longrightarrow> \<exists>r. boundaries_loop m ks mr sp mp = Inr r"
proof (induction ks arbitrary: mr sp mp)
  case Nil
  show ?case by simp
next
  case (Cons k ks)
  from Cons.prems obtain w where w: "fmlookup m k = Some w"
    by (auto simp: fmlookup_dom_iff)
  from Cons.prems have "set ks \<subseteq> fset (fmdom m)" by simp
  from Cons.IH [OF this] show ?case using w by (simp add: Let_def)
qed

lemma Min_insert_insert:
  "finite B \<Longrightarrow> Min (insert a (insert b B)) = Min (insert (min a b) B)" for a :: int
  by (cases "B = {}") (simp_all add: min.assoc)

text \<open>The start value the loop returns is the least of its initial value and of the keys
  with a positive truncated average.\<close>

lemma boundaries_loop_start:
  "set ks \<subseteq> fset (fmdom m) \<Longrightarrow> boundaries_loop m ks mr sp mp = Inr (s, x) \<Longrightarrow>
   s = Min (insert sp {k \<in> set ks. 0 < avgRpm_of m k})"
proof (induction ks arbitrary: mr sp mp)
  case Nil
  then show ?case by simp
next
  case (Cons k ks)
  from Cons.prems obtain w where w: "fmlookup m k = Some w"
    by (auto simp: fmlookup_dom_iff)
  let ?a = "go_int (getWindowAvg w)"
  let ?sp = "if ?a > 0 \<and> k < sp then k else sp"
  let ?A = "{j \<in> set ks. 0 < avgRpm_of m j}"
  have a: "avgRpm_of m k = ?a" by (simp add: avgRpm_of_def w)
  from Cons.prems have sub: "set ks \<subseteq> fset (fmdom m)" by simp
  from Cons.prems(2) w obtain mr' mp' where
    "boundaries_loop m ks mr' ?sp mp' = Inr (s, x)"
    by (simp add: Let_def)
  from Cons.IH [OF sub this]
  have s: "s = Min (insert ?sp ?A)" .
  have fin: "finite ?A" by simp
  show ?case
  proof (cases "?a > 0")
    case True
    then have eq: "{j \<in> set (k # ks). 0 < avgRpm_of m j} = insert k ?A"
      using a by auto
    have "?sp = min sp k" using True by (simp add: min_def)
    then show ?thesis unfolding eq s using Min_insert_insert [OF fin, of sp k] by simp
  next
    case False
    then have eq: "{j \<in> set (k # ks). 0 < avgRpm_of m j} = ?A"
      using a by auto
    show ?thesis unfolding eq s using False by simp
  qed
qed

text \<open>The maximum the loop returns: its initial value unless some key has a truncated
  average above the initial \<^verbatim>\<open>maxRpm\<close>; then the first key, in increasing order, that
  reaches the greatest truncated average.\<close>

lemma boundaries_loop_max:
  "set ks \<subseteq> fset (fmdom m) \<Longrightarrow> sorted ks \<Longrightarrow> distinct ks \<Longrightarrow>
   boundaries_loop m ks mr sp mp = Inr (s, x) \<Longrightarrow>
   (if \<forall>k \<in> set ks. avgRpm_of m k \<le> mr then x = mp
    else x \<in> set ks \<and> mr < avgRpm_of m x \<and> (\<forall>k \<in> set ks. avgRpm_of m k \<le> avgRpm_of m x)
         \<and> (\<forall>k \<in> set ks. avgRpm_of m k = avgRpm_of m x \<longrightarrow> x \<le> k))"
proof (induction ks arbitrary: mr sp mp)
  case Nil
  then show ?case by simp
next
  case (Cons k ks)
  from Cons.prems obtain w where w: "fmlookup m k = Some w"
    by (auto simp: fmlookup_dom_iff)
  let ?a = "go_int (getWindowAvg w)"
  have a: "avgRpm_of m k = ?a" by (simp add: avgRpm_of_def w)
  from Cons.prems have sub: "set ks \<subseteq> fset (fmdom m)" and so: "sorted ks" and di: "distinct ks"
    and lt: "\<forall>j \<in> set ks. k < j"
    by (auto simp: less_le)
  show ?case
  proof (cases "?a > mr")
    case True
    with Cons.prems(4) w obtain sp' where
      run: "boundaries_loop m ks ?a sp' k = Inr (s, x)"
      by (simp add: Let_def)
    note ih = Cons.IH [OF sub so di run]
    show ?thesis
    proof (cases "\<forall>j \<in> set ks. avgRpm_of m j \<le> ?a")
      case all: True
      with ih have "x = k" by simp
      then show ?thesis using True all a lt by (auto simp: not_le)
    next
      case ex: False
      with ih have x: "x \<in> set ks" "?a < avgRpm_of m x"
        "\<forall>j \<in> set ks. avgRpm_of m j \<le> avgRpm_of m x"
        "\<forall>j \<in> set ks. avgRpm_of m j = avgRpm_of m x \<longrightarrow> x \<le> j"
        by (simp_all split: if_splits)
      then show ?thesis using True a by (auto simp: not_le)
    qed
  next
    case False
    with Cons.prems(4) w obtain sp' where
      run: "boundaries_loop m ks mr sp' mp = Inr (s, x)"
      by (simp add: Let_def)
    note ih = Cons.IH [OF sub so di run]
    show ?thesis
    proof (cases "\<forall>j \<in> set ks. avgRpm_of m j \<le> mr")
      case all: True
      with ih have "x = mp" by simp
      then show ?thesis using False all a by auto
    next
      case ex: False
      with ih have x: "x \<in> set ks" "mr < avgRpm_of m x"
        "\<forall>j \<in> set ks. avgRpm_of m j \<le> avgRpm_of m x"
        "\<forall>j \<in> set ks. avgRpm_of m j = avgRpm_of m x \<longrightarrow> x \<le> j"
        by (simp_all split: if_splits)
      then show ?thesis using False a ex by (auto simp: not_le)
    qed
  qed
qed

lemma sorted_keys_props:
  "set (sorted_list_of_fset S) = fset S"
  "sorted (sorted_list_of_fset S)"
  "distinct (sorted_list_of_fset S)"
  by (simp_all add: sorted_list_of_fset.rep_eq)

lemma sorted_keys_Nil: "sorted_list_of_fset S = [] \<longleftrightarrow> S = {||}"
  by (metis sorted_list_of_fset_simps(1) bot_fset.rep_eq fset_inject set_empty)

text \<open>What \<^verbatim>\<open>GetPwmBoundaries\<close> computes for a fan with curve data \<open>m\<close>.\<close>

lemma GetPwmBoundaries_result:
  assumes "FanCurveData fan = Some m"
  shows "\<exists>s x. GetPwmBoundaries fan = Inr (s, x) \<and>
     (if fmdom m = {||} then s = 0 \<and> x = 255
      else s = Min (insert 255 {k \<in> fset (fmdom m). 0 < avgRpm_of m k}) \<and>
           (if \<forall>k \<in> fset (fmdom m). avgRpm_of m k \<le> 0 then x = 255
            else x |\<in>| fmdom m \<and> 0 < avgRpm_of m x \<and>
                 (\<forall>k \<in> fset (fmdom m). avgRpm_of m k \<le> avgRpm_of m x) \<and>
                 (\<forall>k \<in> fset (fmdom m). avgRpm_of m k = avgRpm_of m x \<longrightarrow> x \<le> k)))"
proof (cases "fmdom m = {||}")
  case True
  then show ?thesis using assms by (simp add: GetPwmBoundaries_def sorted_keys_Nil)
next
  case False
  let ?ks = "sorted_list_of_fset (fmdom m)"
  have sub: "set ?ks \<subseteq> fset (fmdom m)" by (simp add: sorted_keys_props)
  from boundaries_loop_total [OF sub] obtain s x where
    run: "boundaries_loop m ?ks 0 255 255 = Inr (s, x)" by fastforce
  have g: "GetPwmBoundaries fan = Inr (s, x)"
    using assms False run by (simp add: GetPwmBoundaries_def sorted_keys_Nil)
  have st: "s = Min (insert 255 {k \<in> fset (fmdom m). 0 < avgRpm_of m k})"
    using boundaries_loop_start [OF sub run] by (simp add: sorted_keys_props)
  note mx = boundaries_loop_max [OF sub sorted_keys_props(2) sorted_keys_props(3) run]
  show ?thesis using False g st mx by (simp split: if_splits)
qed

text \<open>
  Claim C2, as amended. For a fan with curve data: without any key the result is
  \<open>(0, 255)\<close>. Otherwise \<open>start_pwm\<close> is the least key whose window average, truncated to an
  integer, is positive, capped at 255 (so 255 when no key qualifies); \<open>max_pwm\<close> is the
  smallest key that reaches the greatest truncated average when that average is positive,
  and 255 when no key has a positive truncated average.
\<close>

theorem GetPwmBoundaries_amended:
  assumes "FanCurveData fan = Some m"
  shows "\<exists>s x. GetPwmBoundaries fan = Inr (s, x) \<and>
     (if fmdom m = {||} then s = 0 \<and> x = 255
      else s = Min (insert 255 {k \<in> fset (fmdom m). 0 < avgRpm_of m k}) \<and>
           (if \<forall>k \<in> fset (fmdom m). avgRpm_of m k \<le> 0 then x = 255
            else x |\<in>| fmdom m \<and> 0 < avgRpm_of m x \<and>
                 (\<forall>k \<in> fset (fmdom m). avgRpm_of m k \<le> avgRpm_of m x) \<and>
                 (\<forall>k \<in> fset (fmdom m). avgRpm_of m k = avgRpm_of m x \<longrightarrow> x \<le> k)))"
  using assms by (rule GetPwmBoundaries_result)

theorem GetPwmBoundaries_amended_witness:
  "FanCurveData (example_fan (Some data_ramp) 2) = Some data_ramp \<and>
   fmdom data_ramp \<noteq> {||} \<and>
   \<not> (\<forall>k \<in> fset (fmdom data_ramp). avgRpm_of data_ramp k \<le> 0) \<and>
   GetPwmBoundaries (example_fan (Some data_ramp) 2) = Inr (20, 30) \<and>
   (\<exists>s x. GetPwmBoundaries (example_fan (Some data_ramp) 2) = Inr (s, x) \<and>
      s = Min (insert 255 {k \<in> fset (fmdom data_ramp). 0 < avgRpm_of data_ramp k}) \<and>
      x |\<in>| fmdom data_ramp \<and> 0 < avgRpm_of data_ramp x \<and>
      (\<forall>k \<in> fset (fmdom data_ramp). avgRpm_of data_ramp k \<le> avgRpm_of data_ramp x) \<and>
      (\<forall>k \<in> fset (fmdom data_ramp).
          avgRpm_of data_ramp k = avgRpm_of data_ramp x \<longrightarrow> x \<le> k))"
proof -
  have h: "FanCurveData (example_fan (Some data_ramp) 2) = Some data_ramp"
    by (simp add: example_fan_def)
  have ne: "fmdom data_ramp \<noteq> {||}" by (simp add: data_ramp_def)
  have a20: "avgRpm_of data_ramp 20 = 1000" by code_simp
  have "20 |\<in>| fmdom data_ramp" by (simp add: data_ramp_def)
  with a20 have pos: "\<not> (\<forall>k \<in> fset (fmdom data_ramp). avgRpm_of data_ramp k \<le> 0)"
    by force
  have ev: "GetPwmBoundaries (example_fan (Some data_ramp) 2) = Inr (20, 30)" by code_simp
  show ?thesis using h ne pos ev GetPwmBoundaries_amended [OF h] by simp
qed

text \<open>
  Claim C2 as stated fails. A fan that never turned (one key, average 0) gets
  \<open>(255, 255)\<close> where the claim asks for \<open>start_pwm = 0\<close> and \<open>max_pwm = 10\<close>; a window
  average of 0.5 is truncated to 0 and does not count as positive.
\<close>

theorem GetPwmBoundaries_counterexample:
  "GetPwmBoundaries (example_fan (Some data_stalled) 2) = Inr (255, 255) \<and>
   spec_pwm_boundaries data_stalled = (0, 10) \<and>
   GetPwmBoundaries (example_fan (Some data_slow) 2) = Inr (255, 255) \<and>
   spec_pwm_boundaries data_slow = (10, 10)"
  by code_simp

text \<open>
  Claim C9. With a nil curve-data pointer \<^verbatim>\<open>GetPwmBoundaries\<close> panics on the dereference
  in \<^verbatim>\<open>len(*pwmRpmMap)\<close>; the branch that returns \<open>start_pwm = 0\<close> is not reached, for any
  fan.
\<close>

theorem GetPwmBoundaries_nil_panics:
  "GetPwmBoundaries (fan\<lparr>FanCurveData := None\<rparr>) = Inl NilPointerDereference"
  by (simp add: GetPwmBoundaries_def)

section \<open>The loops of AttachFanCurveData\<close>

declare fill_window.simps [simp del] fill_values.simps [simp del] vars_at.simps [simp del]
  find_next.simps [simp del] attach_loop.simps [simp del]

lemma fill_window_stop: "\<not> k < sz \<Longrightarrow> fill_window sz pv k a w = Inr w"
  by (subst fill_window.simps) simp

lemma fill_window_step:
  "k < sz \<Longrightarrow> fill_window sz pv k a w =
     (case Append w (if k < length pv then pv ! k else a) of
        Inl e \<Rightarrow> Inl e
      | Inr w' \<Rightarrow> fill_window sz pv (k + 1)
          (if k = 0 then (if k < length pv then pv ! k else a)
           else (a + (if k < length pv then pv ! k else a)) / 2) w')"
  by (subst fill_window.simps) (simp add: Let_def)

lemma fill_values_stop: "\<not> k < sz \<Longrightarrow> fill_values sz pv k a = []"
  by (subst fill_values.simps) simp

lemma fill_values_step:
  "k < sz \<Longrightarrow> fill_values sz pv k a =
     (if k < length pv then pv ! k else a) #
     fill_values sz pv (k + 1)
       (if k = 0 then (if k < length pv then pv ! k else a)
        else (a + (if k < length pv then pv ! k else a)) / 2)"
  by (subst fill_values.simps) (simp add: Let_def)

lemma fill_window_values:
  "k \<le> sz \<Longrightarrow> length (window w) = sz \<Longrightarrow> windowSize w = sz \<Longrightarrow> (k < sz \<longrightarrow> offset w = k) \<Longrightarrow>
   fill_window sz pv k a w =
     Inr (w\<lparr>window := take k (window w) @ fill_values sz pv k a,
            offset := (if k < sz then 0 else offset w)\<rparr>)"
proof (induction sz pv k a w rule: fill_window.induct)
  case (1 sz pv k a w)
  show ?case
  proof (cases "k < sz")
    case False
    with "1.prems" show ?thesis
      by (simp add: fill_window_stop fill_values_stop)
  next
    case True
    define rpm where "rpm = (if k < length pv then pv ! k else a)"
    define a' where "a' = (if k = 0 then rpm else (a + rpm) / 2)"
    define w' where "w' = w\<lparr>window := (window w)[k := rpm], offset := (k + 1) mod sz\<rparr>"
    have app: "Append w rpm = Inr w'"
      using True "1.prems" by (simp add: Append_def w'_def)
    have ih: "fill_window sz pv (k + 1) a' w' =
        Inr (w'\<lparr>window := take (k + 1) (window w') @ fill_values sz pv (k + 1) a',
                offset := (if k + 1 < sz then 0 else offset w')\<rparr>)"
      using True "1.prems" app
      by (intro "1.IH" [OF True rpm_def a'_def]) (auto simp: w'_def)
    have tk: "take (k + 1) (window w') = take k (window w) @ [rpm]"
      using True "1.prems" by (simp add: w'_def take_Suc_conv_app_nth)
    have off: "(if k + 1 < sz then 0 else offset w') = 0"
    proof (cases "k + 1 < sz")
      case False
      with True have "Suc k = sz" by simp
      then show ?thesis by (simp add: w'_def)
    qed simp
    have "fill_window sz pv k a w = fill_window sz pv (k + 1) a' w'"
      using True app by (simp add: fill_window_step rpm_def a'_def)
    also note ih
    finally show ?thesis
      using True unfolding tk off
      by (simp add: fill_values_step rpm_def a'_def w'_def)
  qed
qed

lemma fill_window_fresh:
  "fill_window sz pv 0 0 (createRollingWindow sz) =
     Inr \<lparr>windowSize = sz, window = fill_values sz pv 0 0, offset = 0\<rparr>"
  using fill_window_values [of 0 sz "createRollingWindow sz" pv 0]
  by (simp add: createRollingWindow_def)

lemma length_fill_values: "length (fill_values sz pv k a) = sz - k"
proof (induction sz pv k a rule: fill_values.induct)
  case (1 sz pv k a)
  show ?case
  proof (cases "k < sz")
    case True
    then show ?thesis using "1.IH" [OF True refl refl]
      by (simp add: fill_values_step)
  next
    case False
    then show ?thesis by (simp add: fill_values_stop)
  qed
qed

lemma fill_values_exact:
  "length pv = sz \<Longrightarrow> k \<le> sz \<Longrightarrow> fill_values sz pv k a = drop k pv"
proof (induction sz pv k a rule: fill_values.induct)
  case (1 sz pv k a)
  show ?case
  proof (cases "k < sz")
    case True
    then show ?thesis using "1.IH" [OF True refl refl] "1.prems"
      by (simp add: fill_values_step Cons_nth_drop_Suc)
  next
    case False
    then show ?thesis using "1.prems" by (simp add: fill_values_stop)
  qed
qed

lemma fill_values_const:
  "0 < k \<Longrightarrow> length pv \<le> k \<Longrightarrow> fill_values sz pv k a = replicate (sz - k) a"
proof (induction sz pv k a rule: fill_values.induct)
  case (1 sz pv k a)
  show ?case
  proof (cases "k < sz")
    case True
    then show ?thesis using "1.IH" [OF True refl refl] "1.prems"
      by (simp add: fill_values_step Suc_diff_le flip: replicate_Suc)
  next
    case False
    then show ?thesis using "1.prems" by (simp add: fill_values_stop)
  qed
qed

lemma fill_values_single: "fill_values sz [x] 0 0 = replicate sz x"
proof (cases sz)
  case 0
  then show ?thesis by (simp add: fill_values_stop)
next
  case (Suc n)
  then show ?thesis
    using fill_values_const [of 1 "[x]" sz x]
    by (simp add: fill_values_step)
qed

lemma fill_values_empty: "fill_values sz [] 0 0 = replicate sz 0"
proof (cases sz)
  case 0
  then show ?thesis by (simp add: fill_values_stop)
next
  case (Suc n)
  then show ?thesis
    using fill_values_const [of 1 "[]" sz 0]
    by (simp add: fill_values_step)
qed

lemma find_next_stop: "\<not> j \<le> limit \<Longrightarrow> find_next cd j (n, a) = (n, a)"
  by (subst find_next.simps) simp

lemma find_next_step:
  "j \<le> limit \<Longrightarrow> find_next cd j (n, a) =
     find_next cd (j + 1) (case fmlookup cd j of Some pv \<Rightarrow> (j, Avg pv) | None \<Rightarrow> (n, a))"
  by (subst find_next.simps) simp

lemma vars_at_stop: "\<not> i < p \<Longrightarrow> vars_at cd i v p = v"
  by (subst vars_at.simps) simp

lemma vars_at_step:
  "i < p \<Longrightarrow> vars_at cd i v p = vars_at cd (i + 1) (fst (attach_point cd i v)) p"
  by (subst vars_at.simps) simp

lemma attach_loop_stop: "\<not> i \<le> limit \<Longrightarrow> attach_loop sz cd i v fan = Inr fan"
  by (subst attach_loop.simps) simp

lemma attach_loop_step:
  "i \<le> limit \<Longrightarrow> FanCurveData fan = Some d \<Longrightarrow>
   attach_loop sz cd i v fan =
     attach_loop sz cd (i + 1) (fst (attach_point cd i v))
       (fan\<lparr>FanCurveData := Some (fmupd i
          \<lparr>windowSize = sz, window = fill_values sz (snd (attach_point cd i v)) 0 0, offset = 0\<rparr> d)\<rparr>)"
  by (subst attach_loop.simps) (simp add: Let_def split_beta fill_window_fresh)

lemma attach_loop_nil:
  "i \<le> limit \<Longrightarrow> FanCurveData fan = None \<Longrightarrow>
   attach_loop sz cd i v fan = Inl NilPointerDereference"
  by (subst attach_loop.simps) (simp add: Let_def split_beta fill_window_fresh)

lemma attach_loop_result:
  "FanCurveData fan = Some d \<Longrightarrow>
   \<exists>d'. attach_loop sz cd i v fan = Inr (fan\<lparr>FanCurveData := Some d'\<rparr>) \<and>
     (\<forall>p. fmlookup d' p =
        (if i \<le> p \<and> p \<le> limit
         then Some \<lparr>windowSize = sz,
                    window = fill_values sz (snd (attach_point cd p (vars_at cd i v p))) 0 0,
                    offset = 0\<rparr>
         else fmlookup d p))"
proof (induction "nat (limit + 1 - i)" arbitrary: i v fan d)
  case 0
  then have "\<not> i \<le> limit" by simp
  then show ?case using "0.prems"
    by (auto simp: attach_loop_stop intro!: exI [of _ d])
next
  case (Suc n)
  then have True: "i \<le> limit" and n: "n = nat (limit + 1 - (i + 1))" by simp_all
  show ?case
  proof -
    define w where "w = \<lparr>windowSize = sz,
      window = fill_values sz (snd (attach_point cd i v)) 0 0, offset = 0\<rparr>"
    define v' where "v' = fst (attach_point cd i v)"
    define fan1 where "fan1 = fan\<lparr>FanCurveData := Some (fmupd i w d)\<rparr>"
    have d1: "FanCurveData fan1 = Some (fmupd i w d)" by (simp add: fan1_def)
    have step: "attach_loop sz cd i v fan = attach_loop sz cd (i + 1) v' fan1"
      using attach_loop_step [OF True Suc.prems] by (simp add: w_def v'_def fan1_def)
    have "\<exists>d'. attach_loop sz cd (i + 1) v' fan1 = Inr (fan1\<lparr>FanCurveData := Some d'\<rparr>) \<and>
       (\<forall>p. fmlookup d' p =
          (if i + 1 \<le> p \<and> p \<le> limit
           then Some \<lparr>windowSize = sz,
                      window = fill_values sz (snd (attach_point cd p (vars_at cd (i + 1) v' p))) 0 0,
                      offset = 0\<rparr>
           else fmlookup (fmupd i w d) p))"
      by (rule Suc.hyps(1) [OF n d1])
    then obtain d' where run: "attach_loop sz cd (i + 1) v' fan1 = Inr (fan1\<lparr>FanCurveData := Some d'\<rparr>)"
      and look: "\<And>p. fmlookup d' p =
          (if i + 1 \<le> p \<and> p \<le> limit
           then Some \<lparr>windowSize = sz,
                      window = fill_values sz (snd (attach_point cd p (vars_at cd (i + 1) v' p))) 0 0,
                      offset = 0\<rparr>
           else fmlookup (fmupd i w d) p)"
      by blast
    have res: "attach_loop sz cd i v fan = Inr (fan\<lparr>FanCurveData := Some d'\<rparr>)"
      using step run by (simp add: fan1_def)
    have "fmlookup d' p =
        (if i \<le> p \<and> p \<le> limit
         then Some \<lparr>windowSize = sz,
                    window = fill_values sz (snd (attach_point cd p (vars_at cd i v p))) 0 0,
                    offset = 0\<rparr>
         else fmlookup d p)" for p
    proof (cases "p = i")
      case True
      then show ?thesis using \<open>i \<le> limit\<close> look [of p]
        by (simp add: vars_at_stop w_def)
    next
      case False
      then show ?thesis using look [of p]
        by (auto simp: vars_at_step [of i p] v'_def)
    qed
    with res show ?thesis by blast
  qed
qed

lemma attach_point_has_values:
  "fmlookup cd i = Some pv \<Longrightarrow> pv \<noteq> [] \<Longrightarrow>
   attach_point cd i v = (v\<lparr>lastValueIdx := i, lastValueAvg := Avg pv\<rparr>, pv)"
  by (simp add: attach_point_def)

lemma attach_point_keeps_last:
  "\<not> has_values cd i \<Longrightarrow>
   lastValueIdx (fst (attach_point cd i v)) = lastValueIdx v \<and>
   lastValueAvg (fst (attach_point cd i v)) = lastValueAvg v"
  by (auto simp: attach_point_def has_values_def Let_def split: option.splits)

lemma vars_at_keeps_last:
  "(\<forall>k. i \<le> k \<and> k < p \<longrightarrow> \<not> has_values cd k) \<Longrightarrow>
   lastValueIdx (vars_at cd i v p) = lastValueIdx v \<and>
   lastValueAvg (vars_at cd i v p) = lastValueAvg v"
proof (induction "nat (p - i)" arbitrary: i v)
  case 0
  then show ?case by (simp add: vars_at_stop)
next
  case (Suc n)
  then have lt: "i < p" and n: "n = nat (p - (i + 1))" by simp_all
  from Suc.prems lt have ni: "\<not> has_values cd i" by simp
  from Suc.prems have rest: "\<forall>k. i + 1 \<le> k \<and> k < p \<longrightarrow> \<not> has_values cd k" by simp
  show ?case
    using Suc.hyps(1) [OF n rest, of "fst (attach_point cd i v)"]
      attach_point_keeps_last [OF ni, of v]
    by (simp add: vars_at_step [OF lt])
qed

lemma vars_at_last:
  "i \<le> k \<Longrightarrow> k < p \<Longrightarrow> fmlookup cd k = Some pv \<Longrightarrow> pv \<noteq> [] \<Longrightarrow>
   (\<forall>j. k < j \<and> j < p \<longrightarrow> \<not> has_values cd j) \<Longrightarrow>
   lastValueIdx (vars_at cd i v p) = k \<and> lastValueAvg (vars_at cd i v p) = Avg pv"
proof (induction "nat (k - i)" arbitrary: i v)
  case 0
  then have ik: "i = k" by simp
  have rest: "\<forall>j. k + 1 \<le> j \<and> j < p \<longrightarrow> \<not> has_values cd j" using "0.prems" by simp
  show ?case
    using vars_at_keeps_last [OF rest, of "fst (attach_point cd k v)"] "0.prems"
    by (simp add: ik vars_at_step [of k p] attach_point_has_values)
next
  case (Suc n)
  then have lt: "i < k" and n: "n = nat (k - (i + 1))" by simp_all
  then have le: "i + 1 \<le> k" and ip: "i < p" using Suc.prems by simp_all
  show ?case
    using Suc.hyps(1) [OF n le Suc.prems(2,3,4,5)]
    by (simp add: vars_at_step [OF ip])
qed

lemma find_next_none:
  "(\<forall>j. i \<le> j \<and> j \<le> limit \<longrightarrow> fmlookup cd j = None) \<Longrightarrow> find_next cd i (n, a) = (n, a)"
proof (induction "nat (limit + 1 - i)" arbitrary: i)
  case 0
  then show ?case by (simp add: find_next_stop)
next
  case (Suc m)
  then have le: "i \<le> limit" and m: "m = nat (limit + 1 - (i + 1))" by simp_all
  from Suc.prems le have "fmlookup cd i = None" by simp
  moreover from Suc.prems have "\<forall>j. i + 1 \<le> j \<and> j \<le> limit \<longrightarrow> fmlookup cd j = None" by simp
  ultimately show ?case using Suc.hyps(1) [OF m] by (simp add: find_next_step [OF le])
qed

lemma find_next_highest:
  "i \<le> k \<Longrightarrow> k \<le> limit \<Longrightarrow> fmlookup cd k = Some pv \<Longrightarrow>
   (\<forall>j. k < j \<and> j \<le> limit \<longrightarrow> fmlookup cd j = None) \<Longrightarrow>
   find_next cd i (n, a) = (k, Avg pv)"
proof (induction "nat (k - i)" arbitrary: i n a)
  case 0
  then have ik: "i = k" by simp
  have "\<forall>j. k + 1 \<le> j \<and> j \<le> limit \<longrightarrow> fmlookup cd j = None" using "0.prems" by simp
  from find_next_none [OF this] show ?case using "0.prems"
    by (simp add: ik find_next_step)
next
  case (Suc m)
  then have lt: "i < k" and m: "m = nat (k - (i + 1))" by simp_all
  then have le: "i + 1 \<le> k" and il: "i \<le> limit" using Suc.prems by simp_all
  obtain n' a' where c: "(case fmlookup cd i of Some pv \<Rightarrow> (i, Avg pv) | None \<Rightarrow> (n, a)) = (n', a')"
    by fastforce
  show ?case
    using Suc.hyps(1) [OF m le Suc.prems(2,3,4), of n' a']
    by (simp add: find_next_step [OF il] c)
qed

text \<open>What one iteration leaves in \<^verbatim>\<open>pointValues\<close> for a PWM without values: the
  interpolation towards the highest key from \<open>p\<close> on, or nothing when no key follows.\<close>

lemma attach_point_interpolates:
  assumes "\<not> has_values cd p" "p < hi" "hi \<le> limit" "fmlookup cd hi = Some pvh"
    "\<forall>j. hi < j \<and> j \<le> limit \<longrightarrow> fmlookup cd j = None"
  shows "snd (attach_point cd p v) =
    [lastValueAvg v + Ratio (real_of_int p) (real_of_int (lastValueIdx v)) (real_of_int hi)
       * (Avg pvh - lastValueAvg v)]"
proof -
  have "find_next cd p (p, nextValueAvg v) = (hi, Avg pvh)"
    using assms by (intro find_next_highest) simp_all
  then show ?thesis using assms(1,2)
    by (auto simp: attach_point_def has_values_def Let_def split: option.splits)
qed

lemma attach_point_above:
  assumes "\<not> has_values cd p" "\<forall>j. p < j \<and> j \<le> limit \<longrightarrow> fmlookup cd j = None"
  shows "snd (attach_point cd p v) = []"
proof (cases "p \<le> limit")
  case True
  have "\<forall>j. p + 1 \<le> j \<and> j \<le> limit \<longrightarrow> fmlookup cd j = None" using assms by simp
  from find_next_none [OF this]
  have "fst (find_next cd p (p, nextValueAvg v)) = p"
    by (auto simp: find_next_step [OF True] split: option.splits)
  then show ?thesis using assms(1)
    by (auto simp: attach_point_def has_values_def Let_def split: option.splits)
next
  case False
  then have "find_next cd p (p, nextValueAvg v) = (p, nextValueAvg v)"
    by (simp add: find_next_stop)
  then show ?thesis using assms(1)
    by (auto simp: attach_point_def has_values_def Let_def split: option.splits)
qed

lemma fcard_fmdom_pos: "fmdom cd \<noteq> {||} \<Longrightarrow> \<not> int (fcard (fmdom cd)) \<le> 0"
  by (simp add: fcard_0_eq)

lemma AttachFanCurveData_result:
  assumes "FanCurveData fan = Some d" "fmdom cd \<noteq> {||}"
  shows "\<exists>d' s x.
     AttachFanCurveData sz (Some cd) fan =
       Inr (fan\<lparr>FanCurveData := Some d', StartPwm := s, MaxPwm := x, MinPwm := s\<rparr>) \<and>
     GetPwmBoundaries (fan\<lparr>FanCurveData := Some d'\<rparr>) = Inr (s, x) \<and>
     (\<forall>p. fmlookup d' p =
        (if 0 \<le> p \<and> p \<le> limit
         then Some \<lparr>windowSize = sz,
                    window = fill_values sz
                      (snd (attach_point cd p (vars_at cd 0
                         \<lparr>lastValueIdx = 0, lastValueAvg = 0, nextValueIdx = 0, nextValueAvg = 0\<rparr> p))) 0 0,
                    offset = 0\<rparr>
         else fmlookup d p))"
proof -
  let ?v0 = "\<lparr>lastValueIdx = 0, lastValueAvg = 0, nextValueIdx = 0, nextValueAvg = 0\<rparr>"
  from attach_loop_result [OF assms(1), of sz cd 0 ?v0]
  obtain d' where run: "attach_loop sz cd 0 ?v0 fan = Inr (fan\<lparr>FanCurveData := Some d'\<rparr>)"
    and look: "\<forall>p. fmlookup d' p =
        (if 0 \<le> p \<and> p \<le> limit
         then Some \<lparr>windowSize = sz,
                    window = fill_values sz (snd (attach_point cd p (vars_at cd 0 ?v0 p))) 0 0,
                    offset = 0\<rparr>
         else fmlookup d p)"
    by blast
  have "FanCurveData (fan\<lparr>FanCurveData := Some d'\<rparr>) = Some d'" by simp
  from GetPwmBoundaries_result [OF this]
  obtain s x where g: "GetPwmBoundaries (fan\<lparr>FanCurveData := Some d'\<rparr>) = Inr (s, x)" by blast
  have "AttachFanCurveData sz (Some cd) fan =
      Inr (fan\<lparr>FanCurveData := Some d', StartPwm := s, MaxPwm := x, MinPwm := s\<rparr>)"
    using fcard_fmdom_pos [OF assms(2)] run g by (simp add: AttachFanCurveData_def)
  with g look show ?thesis by blast
qed

section \<open>What AttachFanCurveData stores\<close>

lemma attached_window_eq:
  assumes "FanCurveData fan = Some d" "fmdom cd \<noteq> {||}" "0 \<le> p" "p \<le> limit"
  shows "attached_window sz (Some cd) fan p =
    Some (fill_values sz (snd (attach_point cd p (vars_at cd 0
       \<lparr>lastValueIdx = 0, lastValueAvg = 0, nextValueIdx = 0, nextValueAvg = 0\<rparr> p))) 0 0)"
proof -
  from AttachFanCurveData_result [OF assms(1,2), of sz]
  obtain d' s x where
    "AttachFanCurveData sz (Some cd) fan =
       Inr (fan\<lparr>FanCurveData := Some d', StartPwm := s, MaxPwm := x, MinPwm := s\<rparr>)"
    "\<forall>p. fmlookup d' p =
        (if 0 \<le> p \<and> p \<le> limit
         then Some \<lparr>windowSize = sz,
                    window = fill_values sz
                      (snd (attach_point cd p (vars_at cd 0
                         \<lparr>lastValueIdx = 0, lastValueAvg = 0, nextValueIdx = 0, nextValueAvg = 0\<rparr> p))) 0 0,
                    offset = 0\<rparr>
         else fmlookup d p)"
    by blast
  then show ?thesis using assms(3,4) by (simp add: attached_window_def)
qed

lemma fmdom_nonempty: "fmlookup cd k = Some pv \<Longrightarrow> fmdom cd \<noteq> {||}"
  using fmdomI [of cd k pv] by auto

lemma attached_window_given:
  assumes "FanCurveData fan = Some d" "0 \<le> p" "p \<le> limit" "fmlookup cd p = Some pv" "pv \<noteq> []"
  shows "attached_window sz (Some cd) fan p = Some (fill_values sz pv 0 0)"
  using attached_window_eq [OF assms(1) fmdom_nonempty [OF assms(4)] assms(2,3), of sz]
  by (simp add: attach_point_has_values [OF assms(4,5)])

text \<open>A PWM without values below some key of the data is interpolated towards the
  highest key of the data, from the nearest lower PWM with values or from \<open>(0, 0)\<close>.\<close>

lemma attached_window_interpolated:
  assumes fan: "FanCurveData fan = Some d"
    and p: "0 \<le> p" "p < hi" "hi \<le> limit"
    and np: "\<not> has_values cd p"
    and hi: "fmlookup cd hi = Some pvh" "\<forall>j. hi < j \<and> j \<le> limit \<longrightarrow> fmlookup cd j = None"
    and lo: "(0 \<le> lo \<and> lo < p \<and> fmlookup cd lo = Some pvl \<and> pvl \<noteq> [] \<and>
              (\<forall>j. lo < j \<and> j < p \<longrightarrow> \<not> has_values cd j) \<and> lo_avg = Avg pvl) \<or>
             ((\<forall>j. 0 \<le> j \<and> j < p \<longrightarrow> \<not> has_values cd j) \<and> lo = 0 \<and> lo_avg = 0)"
  shows "attached_window sz (Some cd) fan p =
     Some (replicate sz (lo_avg + Ratio (real_of_int p) (real_of_int lo) (real_of_int hi)
        * (Avg pvh - lo_avg)))"
proof -
  let ?v0 = "\<lparr>lastValueIdx = 0, lastValueAvg = 0, nextValueIdx = 0, nextValueAvg = 0\<rparr>"
  have last: "lastValueIdx (vars_at cd 0 ?v0 p) = lo \<and> lastValueAvg (vars_at cd 0 ?v0 p) = lo_avg"
    using lo
  proof (elim disjE conjE)
    assume a: "0 \<le> lo" "lo < p" "fmlookup cd lo = Some pvl" "pvl \<noteq> []"
      "\<forall>j. lo < j \<and> j < p \<longrightarrow> \<not> has_values cd j" "lo_avg = Avg pvl"
    from vars_at_last [OF a(1,2,3,4,5), of ?v0] show ?thesis by (simp add: a(6))
  next
    assume a: "\<forall>j. 0 \<le> j \<and> j < p \<longrightarrow> \<not> has_values cd j" "lo = 0" "lo_avg = 0"
    from vars_at_keeps_last [OF a(1), of ?v0] show ?thesis by (simp add: a)
  qed
  have "p \<le> limit" using p by simp
  from attached_window_eq [OF fan fmdom_nonempty [OF hi(1)] p(1) this, of sz]
  show ?thesis
    by (simp add: attach_point_interpolates [OF np p(2,3) hi] last fill_values_single)
qed

text \<open>Above the highest key of the data the window is filled with zeros: the branch
  that should copy the last point leaves \<^verbatim>\<open>pointValues\<close> empty.\<close>

lemma attached_window_above:
  assumes fan: "FanCurveData fan = Some d" and ne: "fmdom cd \<noteq> {||}"
    and p: "0 \<le> p" "p \<le> limit"
    and np: "\<not> has_values cd p"
    and hi: "\<forall>j. p < j \<and> j \<le> limit \<longrightarrow> fmlookup cd j = None"
  shows "attached_window sz (Some cd) fan p = Some (replicate sz 0)"
  using attached_window_eq [OF fan ne p, of sz]
  by (simp add: attach_point_above [OF np hi] fill_values_empty)

text \<open>
  Claim C3, as amended. Let PWM \<open>p\<close> in 0..255 have no entry in the persisted data, and let
  \<open>hi\<close> be the only PWM from \<open>p\<close> up to 255 that has one, with a non-empty value list. Then
  the window of \<open>p\<close> is filled with the linear interpolation between the average of the
  nearest lower PWM with values and the average of \<open>hi\<close>; when no lower PWM has values the
  interpolation starts from RPM 0 at PWM 0. (What is stored when several PWMs above \<open>p\<close>
  are defined, or none, is not part of this statement.)
\<close>

theorem AttachFanCurveData_fill_amended:
  assumes "FanCurveData fan = Some d"
    and "0 \<le> p" "p < hi" "hi \<le> 255"
    and "fmlookup cd hi = Some pvh" "pvh \<noteq> []"
    and "\<forall>j. p \<le> j \<and> j \<le> 255 \<and> j \<noteq> hi \<longrightarrow> fmlookup cd j = None"
    and "(0 \<le> lo \<and> lo < p \<and> fmlookup cd lo = Some pvl \<and> pvl \<noteq> [] \<and>
              (\<forall>j. lo < j \<and> j < p \<longrightarrow> \<not> has_values cd j) \<and> lo_avg = Avg pvl) \<or>
             ((\<forall>j. 0 \<le> j \<and> j < p \<longrightarrow> \<not> has_values cd j) \<and> lo = 0 \<and> lo_avg = 0)"
  shows "attached_window sz (Some cd) fan p =
     Some (replicate sz (lo_avg + Ratio (real_of_int p) (real_of_int lo) (real_of_int hi)
        * (Avg pvh - lo_avg)))"
proof -
  have np: "\<not> has_values cd p" using assms(2,3,4,7) by (simp add: has_values_def)
  have hi: "\<forall>j. hi < j \<and> j \<le> limit \<longrightarrow> fmlookup cd j = None"
    using assms(3,7) by (simp add: limit_def)
  show ?thesis
    using assms(4) by (intro attached_window_interpolated [OF assms(1,2,3) _ np assms(5) hi assms(8)])
      (simp add: limit_def)
qed

lemma sparse_lookup:
  "fmlookup sparse_curve j = (if j = 8 then Some [100] else if j = 16 then Some [200]
     else if j = 32 then Some [100] else None)"
  by (simp add: sparse_curve_def fmlookup_of_list)

text \<open>The amended claim C3 at PWM 20 of data with values at 8, 16 and 32; the window
  size is 1.\<close>

theorem AttachFanCurveData_fill_amended_witness:
  "attached_window 1 (Some sparse_curve) (example_fan (Some fmempty) 2) 20 = Some [175]"
proof -
  have "attached_window 1 (Some sparse_curve) (example_fan (Some fmempty) 2) 20 =
     Some (replicate 1 (Avg [200] + Ratio (real_of_int 20) (real_of_int 16) (real_of_int 32)
        * (Avg [100] - Avg [200])))"
  proof (rule AttachFanCurveData_fill_amended [where pvl = "[200]" and d = fmempty])
    show "FanCurveData (example_fan (Some fmempty) 2) = Some fmempty" by (simp add: example_fan_def)
    show "fmlookup sparse_curve 32 = Some [100]" by (simp add: sparse_lookup)
    show "\<forall>j. 20 \<le> j \<and> j \<le> 255 \<and> j \<noteq> 32 \<longrightarrow> fmlookup sparse_curve j = None"
      by (simp add: sparse_lookup)
    show "(0 \<le> (16::int) \<and> (16::int) < 20 \<and> fmlookup sparse_curve 16 = Some [200] \<and> [200::real] \<noteq> [] \<and>
              (\<forall>j. 16 < j \<and> j < 20 \<longrightarrow> \<not> has_values sparse_curve j) \<and> Avg [200] = Avg [200]) \<or>
             ((\<forall>j. 0 \<le> j \<and> j < 20 \<longrightarrow> \<not> has_values sparse_curve j) \<and> (16::int) = 0 \<and> Avg [200] = 0)"
      by (simp add: sparse_lookup has_values_def)
  qed simp_all
  then show ?thesis by (simp add: Avg_def Ratio_def)
qed

text \<open>
  Claim C3 as stated fails below the lowest defined PWM: with the single entry
  \<open>8 \<mapsto> [100]\<close>, PWM 4 gets 50, halfway between 0 at PWM 0 and 100 at PWM 8, where
  the claim repeats the lowest average, 100.
\<close>

theorem AttachFanCurveData_fill_counterexample:
  "attached_window 1 (Some single_curve) (example_fan (Some fmempty) 2) 4 = Some [50] \<and>
   spec_fill_avg single_curve 4 = 100"
proof -
  have l: "\<And>j. fmlookup single_curve j = (if j = 8 then Some [100] else None)"
    by (simp add: single_curve_def fmlookup_of_list)
  have "attached_window 1 (Some single_curve) (example_fan (Some fmempty) 2) 4 =
     Some (replicate 1 (0 + Ratio (real_of_int 4) (real_of_int 0) (real_of_int 8)
        * (Avg [100] - 0)))"
    by (rule attached_window_interpolated [where d = fmempty])
      (simp_all add: l has_values_def example_fan_def limit_def)
  moreover have "spec_fill_avg single_curve 4 = 100" by code_simp
  ultimately show ?thesis by (simp add: Avg_def Ratio_def)
qed

lemma dense_lookup:
  "0 \<le> p \<Longrightarrow> p \<le> 255 \<Longrightarrow> fmlookup dense_curve p = Some [100, 200]"
  by (simp add: dense_curve_def fmlookup_of_list map_of_map_restrict)

text \<open>
  Claim C8 as stated fails when the length of a value list differs from the window
  size: two given values in a window of size 3 are followed by their running mean, and a
  window of size 1 keeps the first of them only.
\<close>

theorem AttachFanCurveData_dense_counterexample:
  "fmlookup dense_curve 0 = Some [100, 200] \<and>
   attached_window 3 (Some dense_curve) (example_fan (Some fmempty) 2) 0 = Some [100, 200, 150] \<and>
   attached_window 1 (Some dense_curve) (example_fan (Some fmempty) 2) 0 = Some [100]"
proof -
  have l: "fmlookup dense_curve 0 = Some [100, 200]" by (simp add: dense_lookup)
  have f: "FanCurveData (example_fan (Some fmempty) 2) = Some fmempty"
    by (simp add: example_fan_def)
  have a: "fill_values 3 [100, 200] 0 0 = [100, 200, 150]" by code_simp
  have b: "fill_values 1 [100, 200] 0 0 = [100]" by code_simp
  show ?thesis
    using attached_window_given [OF f _ _ l, of 3] attached_window_given [OF f _ _ l, of 1] l a b
    by (simp add: limit_def)
qed

text \<open>
  Claim C8, as amended. When the data defines, for every PWM in 0..255, a non-empty value
  list whose length is the rolling window size, the window attached for each PWM holds
  exactly the given values, in their order.
\<close>

theorem AttachFanCurveData_dense_amended:
  assumes "FanCurveData fan = Some d"
    and "\<forall>q. 0 \<le> q \<and> q \<le> 255 \<longrightarrow>
           (\<exists>pv. fmlookup cd q = Some pv \<and> pv \<noteq> [] \<and> length pv = sz)"
    and "0 \<le> p" "p \<le> 255"
  shows "attached_window sz (Some cd) fan p = fmlookup cd p"
proof -
  from assms obtain pv where pv: "fmlookup cd p = Some pv" "pv \<noteq> []" "length pv = sz"
    by blast
  have "p \<le> limit" using assms(4) by (simp add: limit_def)
  from attached_window_given [OF assms(1,3) this pv(1,2), of sz]
  show ?thesis using pv by (simp add: fill_values_exact)
qed

text \<open>The amended claim C8 on data with the two values 100 and 200 at every PWM, for
  windows of size 2.\<close>

theorem AttachFanCurveData_dense_amended_witness:
  "attached_window 2 (Some dense_curve) (example_fan (Some fmempty) 2) 128 = Some [100, 200]"
proof -
  have f: "FanCurveData (example_fan (Some fmempty) 2) = Some fmempty"
    by (simp add: example_fan_def)
  have dense: "\<forall>q. 0 \<le> q \<and> q \<le> 255 \<longrightarrow>
     (\<exists>pv. fmlookup dense_curve q = Some pv \<and> pv \<noteq> [] \<and> length pv = 2)"
    by (simp add: dense_lookup)
  from AttachFanCurveData_dense_amended [OF f dense, of 128]
  show ?thesis by (simp add: dense_lookup)
qed

section \<open>The order of the PWM bounds\<close>

lemma pwm_keys_iff:
  "pwm_keys fan \<longleftrightarrow> (\<forall>d k. FanCurveData fan = Some d \<longrightarrow> k |\<in>| fmdom d \<longrightarrow> 0 \<le> k \<and> k \<le> 255)"
  by (auto simp: pwm_keys_def list_all_iff split: option.splits)

lemma GetPwmBoundaries_ordered:
  assumes d: "FanCurveData fan = Some m" and keys: "\<forall>k. k |\<in>| fmdom m \<longrightarrow> 0 \<le> k \<and> k \<le> 255"
    and g: "GetPwmBoundaries fan = Inr (s, x)"
  shows "0 \<le> s \<and> s \<le> x \<and> x \<le> 255"
proof (cases "fmdom m = {||}")
  case True
  with GetPwmBoundaries_result [OF d] g show ?thesis by simp
next
  case False
  let ?P = "{k \<in> fset (fmdom m). 0 < avgRpm_of m k}"
  from GetPwmBoundaries_result [OF d] g False
  have s: "s = Min (insert 255 ?P)"
    and x: "if \<forall>k \<in> fset (fmdom m). avgRpm_of m k \<le> 0 then x = 255
            else x |\<in>| fmdom m \<and> 0 < avgRpm_of m x"
    by (simp_all split: if_splits)
  have fin: "finite (insert 255 ?P)" by simp
  have "s \<in> insert 255 ?P" unfolding s using fin by (intro Min_in) simp_all
  then have s0: "0 \<le> s" "s \<le> 255" using keys by auto
  show ?thesis
  proof (cases "\<forall>k \<in> fset (fmdom m). avgRpm_of m k \<le> 0")
    case True
    with x s0 show ?thesis by simp
  next
    case False
    with x have xin: "x \<in> ?P" by simp
    then have "s \<le> x" unfolding s using fin by (intro Min_le) simp_all
    with s0 xin keys show ?thesis by auto
  qed
qed

lemma AttachFanCurveData_invariant:
  assumes a: "AttachFanCurveData sz curveData fan = Inr fan'" and k: "pwm_keys fan"
  shows "pwm_ordered fan' \<and> pwm_keys fan'"
proof -
  from a obtain cd where cd: "curveData = Some cd" "fmdom cd \<noteq> {||}"
    by (auto simp: AttachFanCurveData_def fcard_0_eq split: option.splits if_splits)
  from a cd obtain d where d: "FanCurveData fan = Some d"
    using attach_loop_nil [of 0 fan sz cd]
    by (cases "FanCurveData fan") (auto simp: AttachFanCurveData_def fcard_0_eq limit_def)
  from AttachFanCurveData_result [OF d cd(2), of sz] a cd(1)
  obtain d' s x where
    fan': "fan' = fan\<lparr>FanCurveData := Some d', StartPwm := s, MaxPwm := x, MinPwm := s\<rparr>"
    and g: "GetPwmBoundaries (fan\<lparr>FanCurveData := Some d'\<rparr>) = Inr (s, x)"
    and look: "\<And>p. fmlookup d' p = (if 0 \<le> p \<and> p \<le> limit
         then Some \<lparr>windowSize = sz,
                    window = fill_values sz
                      (snd (attach_point cd p (vars_at cd 0
                         \<lparr>lastValueIdx = 0, lastValueAvg = 0, nextValueIdx = 0, nextValueAvg = 0\<rparr> p))) 0 0,
                    offset = 0\<rparr>
         else fmlookup d p)"
    by auto
  have keys: "\<forall>k. k |\<in>| fmdom d' \<longrightarrow> 0 \<le> k \<and> k \<le> 255"
  proof (intro allI impI)
    fix k assume "k |\<in>| fmdom d'"
    then have "fmlookup d' k \<noteq> None" by (simp add: fmlookup_dom_iff)
    then have "(0 \<le> k \<and> k \<le> limit) \<or> fmlookup d k \<noteq> None" using look [of k] by (auto split: if_splits)
    then show "0 \<le> k \<and> k \<le> 255"
      using k d by (auto simp: pwm_keys_iff limit_def fmlookup_dom_iff)
  qed
  have "FanCurveData (fan\<lparr>FanCurveData := Some d'\<rparr>) = Some d'" by simp
  from GetPwmBoundaries_ordered [OF this keys g]
  show ?thesis using keys by (simp add: fan' pwm_ordered_def pwm_keys_iff)
qed

lemma measureRpm_fan_invariant:
  assumes m: "measureRpm_fan upd sz pwm rpm fan = Inr fan'" and r: "0 \<le> pwm" "pwm \<le> 255"
    and i: "pwm_ordered fan \<and> pwm_keys fan"
  shows "pwm_ordered fan' \<and> pwm_keys fan'"
proof -
  from m obtain d w where d: "FanCurveData fan = Some d"
    and fan': "fan' = fan\<lparr>RpmMovingAvg := upd (RpmMovingAvg fan) sz (real_of_int rpm),
                           FanCurveData := Some (fmupd pwm w d)\<rparr>"
    by (auto simp: measureRpm_fan_def Let_def split: option.splits sum.splits)
  show ?thesis using i r d
    by (auto simp: fan' pwm_ordered_def pwm_keys_iff)
qed

lemma fan_after_invariant:
  "fan_after upd sz evs fan = Inr fan' \<Longrightarrow>
   (\<forall>pwm rpm. Sample pwm rpm \<in> set evs \<longrightarrow> 0 \<le> pwm \<and> pwm \<le> 255) \<Longrightarrow>
   pwm_ordered fan \<and> pwm_keys fan \<Longrightarrow> pwm_ordered fan' \<and> pwm_keys fan'"
proof (induction upd sz evs fan rule: fan_after.induct)
  case (1 upd sz fan)
  then show ?case by simp
next
  case (2 upd sz pwm rpm evs fan)
  from "2.prems"(1) obtain fan1 where
    m: "measureRpm_fan upd sz pwm rpm fan = Inr fan1" and rest: "fan_after upd sz evs fan1 = Inr fan'"
    by (auto split: sum.splits)
  from "2.prems"(2) have r: "0 \<le> pwm" "pwm \<le> 255" by auto
  from "2.prems"(2) have r': "\<forall>pwm rpm. Sample pwm rpm \<in> set evs \<longrightarrow> 0 \<le> pwm \<and> pwm \<le> 255"
    by auto
  from measureRpm_fan_invariant [OF m r "2.prems"(3)]
  show ?case by (rule "2.IH" [OF m rest r'])
next
  case (3 upd sz curveData evs fan)
  from "3.prems"(1) obtain fan1 where
    a: "AttachFanCurveData sz curveData fan = Inr fan1" and rest: "fan_after upd sz evs fan1 = Inr fan'"
    by (auto split: sum.splits)
  from "3.prems"(2) have r': "\<forall>pwm rpm. Sample pwm rpm \<in> set evs \<longrightarrow> 0 \<le> pwm \<and> pwm \<le> 255"
    by auto
  from AttachFanCurveData_invariant [OF a] "3.prems"(3)
  have "pwm_ordered fan1 \<and> pwm_keys fan1" by simp
  then show ?case by (rule "3.IH" [OF a rest r'])
qed

text \<open>
  Claim C7. Let \<^verbatim>\<open>AttachFanCurveData\<close> succeed on a fan whose curve data so far has PWM
  values (0..255) as keys. Then \<open>0 \<le> min_pwm \<le> start_pwm \<le> max_pwm \<le> 255\<close> holds for the
  fan, and still holds after any run of RPM samples (at PWM values) and further
  \<^verbatim>\<open>AttachFanCurveData\<close> calls that goes through.
\<close>

theorem pwm_order_after_attach:
  assumes "AttachFanCurveData sz curveData fan0 = Inr fan1"
    and "pwm_keys fan0"
    and "fan_after upd sz evs fan1 = Inr fan"
    and "\<forall>pwm rpm. Sample pwm rpm \<in> set evs \<longrightarrow> 0 \<le> pwm \<and> pwm \<le> 255"
  shows "0 \<le> MinPwm fan1 \<and> MinPwm fan1 \<le> StartPwm fan1 \<and> StartPwm fan1 \<le> MaxPwm fan1 \<and>
         MaxPwm fan1 \<le> 255 \<and>
         0 \<le> MinPwm fan \<and> MinPwm fan \<le> StartPwm fan \<and> StartPwm fan \<le> MaxPwm fan \<and>
         MaxPwm fan \<le> 255"
proof -
  note i1 = AttachFanCurveData_invariant [OF assms(1,2)]
  from fan_after_invariant [OF assms(3,4) i1] i1
  show ?thesis by (simp add: pwm_ordered_def)
qed

text \<open>Claim C7 on a configured fan initialised from one persisted entry and sampled once
  afterwards.\<close>

theorem pwm_order_after_attach_witness:
  "pwm_keys configured_fan \<and>
   (\<exists>fan1 fan. AttachFanCurveData 1 (Some single_curve) configured_fan = Inr fan1 \<and>
      fan_after example_moving_avg 1 [Sample 100 1200] fan1 = Inr fan \<and>
      0 \<le> MinPwm fan1 \<and> MinPwm fan1 \<le> StartPwm fan1 \<and> StartPwm fan1 \<le> MaxPwm fan1 \<and>
      MaxPwm fan1 \<le> 255 \<and>
      0 \<le> MinPwm fan \<and> MinPwm fan \<le> StartPwm fan \<and> StartPwm fan \<le> MaxPwm fan \<and>
      MaxPwm fan \<le> 255)"
proof -
  have k: "pwm_keys configured_fan"
    by (simp add: pwm_keys_iff configured_fan_def example_fan_def)
  have d: "FanCurveData configured_fan = Some fmempty"
    by (simp add: configured_fan_def example_fan_def)
  have ne: "fmdom single_curve \<noteq> {||}" by (simp add: single_curve_def)
  from AttachFanCurveData_result [OF d ne, of 1]
  obtain d' s x where
    a: "AttachFanCurveData 1 (Some single_curve) configured_fan =
       Inr (configured_fan\<lparr>FanCurveData := Some d', StartPwm := s, MaxPwm := x, MinPwm := s\<rparr>)"
    and look: "\<And>p. fmlookup d' p =
        (if 0 \<le> p \<and> p \<le> limit
         then Some \<lparr>windowSize = 1,
                    window = fill_values 1
                      (snd (attach_point single_curve p (vars_at single_curve 0
                         \<lparr>lastValueIdx = 0, lastValueAvg = 0, nextValueIdx = 0, nextValueAvg = 0\<rparr> p))) 0 0,
                    offset = 0\<rparr>
         else fmlookup fmempty p)"
    by blast
  define fan1 where
    "fan1 = configured_fan\<lparr>FanCurveData := Some d', StartPwm := s, MaxPwm := x, MinPwm := s\<rparr>"
  have c: "Config fan1 = Some example_config" "FanCurveData fan1 = Some d'"
    by (simp_all add: fan1_def configured_fan_def)
  obtain w where w: "fmlookup d' 100 = Some w" "offset w = 0" "length (window w) = 1"
    using look [of 100] by (simp add: limit_def length_fill_values)
  then obtain w' where "Append w (real_of_int 1200) = Inr w'"
    by (simp add: Append_def)
  then obtain fan where m: "measureRpm_fan example_moving_avg 1 100 1200 fan1 = Inr fan"
    using c w by (simp add: measureRpm_fan_def Let_def)
  then have f: "fan_after example_moving_avg 1 [Sample 100 1200] fan1 = Inr fan" by simp
  have s: "\<forall>pwm rpm. Sample pwm rpm \<in> set [Sample 100 1200] \<longrightarrow> 0 \<le> pwm \<and> pwm \<le> 255"
    by simp
  from pwm_order_after_attach [OF a [folded fan1_def] k f s] a [folded fan1_def] f k
  show ?thesis by blast
qed

section \<open>Discovery\<close>

lemma createFans_loop_never_returns:
  "length inputs < idx + length outputs \<Longrightarrow> idx \<le> length inputs \<Longrightarrow>
   \<exists>e. createFans_loop fs devicePath inputs idx outputs fanList = Inl e"
proof (induction outputs arbitrary: idx fanList)
  case Nil
  then show ?case by simp
next
  case (Cons out outputs)
  show ?case
  proof (cases "idx < length inputs")
    case True
    with Cons.prems have "length inputs < (idx + 1) + length outputs" "idx + 1 \<le> length inputs"
      by simp_all
    from Cons.IH [OF this] show ?thesis
      by (auto simp: Let_def split: sum.splits option.splits)
  next
    case False
    then show ?thesis by (auto simp: Let_def split: sum.splits)
  qed
qed

lemma createFans_loop_index_panic:
  "length inputs < idx + length outputs \<Longrightarrow> idx \<le> length inputs \<Longrightarrow>
   \<forall>output \<in> set (take (length inputs + 1 - idx) outputs).
      \<exists>index. Atoi_last (snd (filepath_Split output)) = Inr index \<Longrightarrow>
   \<forall>output \<in> set (take (length inputs - idx) outputs). GetPwmEnabled fs output \<noteq> None \<Longrightarrow>
   createFans_loop fs devicePath inputs idx outputs fanList =
     Inl (IndexOutOfRange (int (length inputs)) (int (length inputs)))"
proof (induction outputs arbitrary: idx fanList)
  case Nil
  then show ?case by simp
next
  case (Cons out outputs)
  from Cons.prems(1,2,3) obtain index where
    at: "Atoi_last (snd (filepath_Split out)) = Inr index"
    by (cases "length inputs + 1 - idx") auto
  show ?case
  proof (cases "idx < length inputs")
    case False
    with Cons.prems(2) have "idx = length inputs" by simp
    then show ?thesis using at by (simp add: Let_def)
  next
    case True
    then obtain n where n: "length inputs - idx = Suc n" by (cases "length inputs - idx") auto
    with True have n1: "length inputs + 1 - idx = Suc (Suc n)" by simp
    from Cons.prems(4) n obtain pe where pe: "GetPwmEnabled fs out = Some pe" by auto
    have a: "length inputs < (idx + 1) + length outputs" using Cons.prems(1) by simp
    have b: "idx + 1 \<le> length inputs" using True by simp
    have n2: "length inputs + 1 - (idx + 1) = Suc n" "length inputs - (idx + 1) = n"
      using n by simp_all
    have c: "\<forall>output \<in> set (take (length inputs + 1 - (idx + 1)) outputs).
      \<exists>index. Atoi_last (snd (filepath_Split output)) = Inr index"
      using Cons.prems(3) unfolding n1 n2 by simp
    have d: "\<forall>output \<in> set (take (length inputs - (idx + 1)) outputs). GetPwmEnabled fs output \<noteq> None"
      using Cons.prems(4) unfolding n n2 by simp
    from Cons.IH [OF a b c d] show ?thesis
      using True at pe by (simp add: Let_def)
  qed
qed

text \<open>
  Claim C10. When a device directory has more files matching \<^verbatim>\<open>^pwm[1-9]$\<close> than files
  matching \<^verbatim>\<open>^fan[1-9]_input$\<close>, \<^verbatim>\<open>createFans\<close> never returns a fan list; when every PWM
  file name ends in a digit and every \<^verbatim>\<open>pwm_enable\<close> read succeeds, what stops it is the
  index expression \<^verbatim>\<open>inputs[idx]\<close> at \<open>idx = len(inputs)\<close>.
\<close>

theorem createFans_more_pwm_than_rpm:
  assumes "length (FindFilesMatching fs devicePath ''^fan[1-9]_input$'')
            < length (FindFilesMatching fs devicePath ''^pwm[1-9]$'')"
  shows "(\<exists>e. createFans fs devicePath = Inl e) \<and>
    ((\<forall>output \<in> set (FindFilesMatching fs devicePath ''^pwm[1-9]$'').
         (\<exists>index. Atoi_last (snd (filepath_Split output)) = Inr index) \<and>
         GetPwmEnabled fs output \<noteq> None) \<longrightarrow>
     createFans fs devicePath =
       Inl (IndexOutOfRange
              (int (length (FindFilesMatching fs devicePath ''^fan[1-9]_input$'')))
              (int (length (FindFilesMatching fs devicePath ''^fan[1-9]_input$'')))))"
proof -
  let ?inputs = "FindFilesMatching fs devicePath ''^fan[1-9]_input$''"
  let ?outputs = "FindFilesMatching fs devicePath ''^pwm[1-9]$''"
  have lt: "length ?inputs < 0 + length ?outputs" using assms by simp
  from createFans_loop_never_returns [OF lt]
  have 1: "\<exists>e. createFans fs devicePath = Inl e" by (simp add: createFans_def)
  have 2: "createFans fs devicePath =
       Inl (IndexOutOfRange (int (length ?inputs)) (int (length ?inputs)))"
    if ok: "\<forall>output \<in> set ?outputs.
         (\<exists>index. Atoi_last (snd (filepath_Split output)) = Inr index) \<and>
         GetPwmEnabled fs output \<noteq> None"
  proof -
    have a: "\<forall>output \<in> set (take (length ?inputs + 1 - 0) ?outputs).
        \<exists>index. Atoi_last (snd (filepath_Split output)) = Inr index"
      using ok by (meson in_set_takeD)
    have b: "\<forall>output \<in> set (take (length ?inputs - 0) ?outputs). GetPwmEnabled fs output \<noteq> None"
      using ok by (meson in_set_takeD)
    from createFans_loop_index_panic [OF lt _ a b] show ?thesis
      by (simp add: createFans_def)
  qed
  from 1 2 show ?thesis by blast
qed

text \<open>Claim C10 on a directory with \<^verbatim>\<open>pwm1\<close>, \<^verbatim>\<open>pwm2\<close> and \<^verbatim>\<open>fan1_input\<close> only.\<close>

theorem createFans_more_pwm_than_rpm_witness:
  "length (FindFilesMatching example_sysfs ''/sys/class/hwmon/hwmon1'' ''^fan[1-9]_input$'')
     < length (FindFilesMatching example_sysfs ''/sys/class/hwmon/hwmon1'' ''^pwm[1-9]$'') \<and>
   createFans example_sysfs ''/sys/class/hwmon/hwmon1'' = Inl (IndexOutOfRange 1 1)"
proof -
  have lt: "length (FindFilesMatching example_sysfs ''/sys/class/hwmon/hwmon1'' ''^fan[1-9]_input$'')
     < length (FindFilesMatching example_sysfs ''/sys/class/hwmon/hwmon1'' ''^pwm[1-9]$'')"
    by (simp add: example_sysfs_def)
  have ok: "\<forall>output \<in> set (FindFilesMatching example_sysfs ''/sys/class/hwmon/hwmon1'' ''^pwm[1-9]$'').
         (\<exists>index. Atoi_last (snd (filepath_Split output)) = Inr index) \<and>
         GetPwmEnabled example_sysfs output \<noteq> None"
    by (simp add: example_sysfs_def Atoi_last_def filepath_Split_def)
  from createFans_more_pwm_than_rpm [OF lt] ok lt show ?thesis
    by (simp add: example_sysfs_def)
qed

text \<open>
  Claim C5 fails on the code. The path of a platform device, which contains the segment
  \<^verbatim>\<open>/platform/nct6775.656/\<close>, has no match, since the expression asks for the component
  \<^verbatim>\<open>{}\<close> itself; \<^verbatim>\<open>FindControllers\<close> then reuses the identifier.
\<close>

theorem findPlatform_never_matches_platform_device:
  "findPlatform ''/sys/devices/platform/nct6775.656/hwmon/hwmon1'' = [] \<and>
   FindControllers_platform ''/sys/devices/platform/nct6775.656/hwmon/hwmon1'' ''nct6775'' = ''nct6775''"
  by code_simp

text \<open>The only paths \<^verbatim>\<open>findPlatform\<close> matches hold the two braces.\<close>

lemma findPlatform_literal_braces:
  "findPlatform ''/sys/devices/platform/{}/hwmon/hwmon1'' =
     ''/sys/devices/platform/{}/hwmon/hwmon1''"
  by code_simp

section \<open>The RPM sampling task\<close>

text \<open>One sample of the first copy: the moving average is updated and the RPM appended
  to the window under the PWM read, which is created when missing.\<close>

lemma measureRpm_fan_samples:
  assumes "Config fan = Some c" "FanCurveData fan = Some m" "0 < sz"
    and "\<forall>w. fmlookup m pwm = Some w \<longrightarrow> offset w < length (window w)"
  shows "\<exists>w'. Append (case fmlookup m pwm of None \<Rightarrow> createRollingWindow sz | Some w \<Rightarrow> w)
                 (real_of_int rpm) = Inr w' \<and>
     measureRpm_fan upd sz pwm rpm fan =
       Inr (fan\<lparr>RpmMovingAvg := upd (RpmMovingAvg fan) sz (real_of_int rpm),
                FanCurveData := Some (fmupd pwm w' m)\<rparr>)"
proof (cases "fmlookup m pwm")
  case None
  then show ?thesis using assms
    by (simp add: measureRpm_fan_def Let_def Append_def createRollingWindow_def)
next
  case (Some w)
  then show ?thesis using assms
    by (simp add: measureRpm_fan_def Let_def Append_def)
qed

lemma rpmMonitor_samples:
  "rpmMonitor example_moving_avg 2 ''cpu_fan'' [Tick 100 1200, Done] example_FanMap =
     Returned (fmupd ''cpu_fan''
       (configured_fan\<lparr>RpmMovingAvg := 600,
          FanCurveData := Some (fmupd 100 \<lparr>windowSize = 2, window = [1200, 0], offset = 1\<rparr> fmempty)\<rparr>)
       example_FanMap)"
  by (simp add: example_FanMap_def measureRpm_def measureRpm_fan_def configured_fan_def
      example_fan_def example_moving_avg_def Append_def createRollingWindow_def Let_def
      numeral_2_eq_2)

lemma rpmMonitor_later_ignores:
  "rpmMonitor_later fanId evs FanMap = Returned FanMap \<or>
   rpmMonitor_later fanId evs FanMap = Waiting FanMap"
  by (induction fanId evs FanMap rule: rpmMonitor_later.induct) simp_all

text \<open>
  Claim C6 fails on the later copy of \<^verbatim>\<open>rpmMonitor\<close>: whatever ticks arrive before the
  context is cancelled, the fans are returned as they were; no RPM is appended and no
  moving average updated. The first copy does sample, see \<open>rpmMonitor_samples\<close> and
  \<open>measureRpm_fan_samples\<close>.
\<close>

theorem rpmMonitor_later_samples_nothing:
  "rpmMonitor_later fanId (map (\<lambda>(pwm, rpm). Tick pwm rpm) samples @ [Done]) FanMap =
     Returned FanMap \<and>
   rpmMonitor_later ''cpu_fan'' [Tick 100 1200, Done] example_FanMap = Returned example_FanMap"
proof -
  have "rpmMonitor_later fanId (map (\<lambda>(pwm, rpm). Tick pwm rpm) samples @ [Done]) FanMap =
     Returned FanMap"
    by (induction samples) auto
  then show ?thesis by simp
qed

section \<open>Restoration on interrupt\<close>

lemma restore_max_calls:
  "\<exists>rest. fst (restore_max io fan hw) = Call_setPwm 255 # rest \<and>
     (\<forall>v. Call_SetPwmEnabled v \<notin> set rest) \<and> (\<forall>v. Call_setPwm v \<notin> set rest)"
  by (auto simp: restore_max_def MaxPwmValue_def split: prod.splits option.splits)

text \<open>
  Claim C1, as amended. When a fan controller is interrupted, and the original
  \<^verbatim>\<open>pwm_enable\<close> value of the fan is not 1, the first call writes that value back, and the
  PWM is set to 255 exactly when that write fails. When the original value is 1, no
  write of \<^verbatim>\<open>pwm_enable\<close> is attempted and the first call sets the PWM to 255.
\<close>

theorem restore_fan_amended:
  "(OriginalPwmEnabled fan \<noteq> 1 \<longrightarrow>
      (\<exists>rest. fst (restore_fan io fan hw) = Call_SetPwmEnabled (OriginalPwmEnabled fan) # rest \<and>
         (\<forall>v. Call_SetPwmEnabled v \<notin> set rest)) \<and>
      (Call_setPwm 255 \<in> set (fst (restore_fan io fan hw)) \<longleftrightarrow>
         fst (SetPwmEnabled io fan (OriginalPwmEnabled fan) hw) \<noteq> None)) \<and>
   (OriginalPwmEnabled fan = 1 \<longrightarrow>
      (\<exists>rest. fst (restore_fan io fan hw) = Call_setPwm 255 # rest) \<and>
      (\<forall>v. Call_SetPwmEnabled v \<notin> set (fst (restore_fan io fan hw))))"
proof (cases "OriginalPwmEnabled fan = 1")
  case True
  then show ?thesis using restore_max_calls [of io fan hw]
    by (auto simp: restore_fan_def)
next
  case False
  obtain r hw' where s: "SetPwmEnabled io fan (OriginalPwmEnabled fan) hw = (r, hw')"
    by (cases "SetPwmEnabled io fan (OriginalPwmEnabled fan) hw")
  show ?thesis
  proof (cases r)
    case None
    then show ?thesis using False s by (simp add: restore_fan_def)
  next
    case (Some e)
    then show ?thesis using False s restore_max_calls [of io fan hw']
      by (auto simp: restore_fan_def split: prod.splits)
  qed
qed

text \<open>The amended claim C1 on a fan whose original mode is 2, with hardware that takes
  the write and with hardware that refuses it.\<close>

theorem restore_fan_amended_witness:
  "OriginalPwmEnabled (example_fan (Some fmempty) 2) \<noteq> 1 \<and>
   fst (restore_fan working_io (example_fan (Some fmempty) 2)
          \<lparr>pwm_enable_file = 1, pwm_file = 80\<rparr>) = [Call_SetPwmEnabled 2] \<and>
   fst (SetPwmEnabled stuck_io (example_fan (Some fmempty) 2) 2
          \<lparr>pwm_enable_file = 1, pwm_file = 80\<rparr>) \<noteq> None \<and>
   Call_setPwm 255 \<in> set (fst (restore_fan stuck_io (example_fan (Some fmempty) 2)
          \<lparr>pwm_enable_file = 1, pwm_file = 80\<rparr>))"
proof -
  have o: "OriginalPwmEnabled (example_fan (Some fmempty) 2) \<noteq> 1"
    by (simp add: example_fan_def)
  have w: "fst (SetPwmEnabled working_io (example_fan (Some fmempty) 2)
      (OriginalPwmEnabled (example_fan (Some fmempty) 2)) \<lparr>pwm_enable_file = 1, pwm_file = 80\<rparr>) = None"
    by (simp add: working_io_def)
  have st: "fst (SetPwmEnabled stuck_io (example_fan (Some fmempty) 2)
      (OriginalPwmEnabled (example_fan (Some fmempty) 2)) \<lparr>pwm_enable_file = 1, pwm_file = 80\<rparr>) \<noteq> None"
    by (simp add: stuck_io_def)
  have e: "fst (restore_fan working_io (example_fan (Some fmempty) 2)
          \<lparr>pwm_enable_file = 1, pwm_file = 80\<rparr>) = [Call_SetPwmEnabled 2]"
    by (simp add: restore_fan_def working_io_def example_fan_def)
  from restore_fan_amended [of "example_fan (Some fmempty) 2" stuck_io
      "\<lparr>pwm_enable_file = 1, pwm_file = 80\<rparr>"] o st e
  show ?thesis by (simp add: example_fan_def)
qed

text \<open>
  Claim C1 as stated fails for a fan whose original \<^verbatim>\<open>pwm_enable\<close> value is 1: on
  hardware that accepts every write, the only call sets the PWM to 255; nothing is
  written to \<^verbatim>\<open>pwm_enable\<close> first.
\<close>

theorem restore_fan_counterexample:
  "restore_fan working_io (example_fan (Some fmempty) 1) \<lparr>pwm_enable_file = 1, pwm_file = 80\<rparr> =
     ([Call_setPwm 255], \<lparr>pwm_enable_file = 1, pwm_file = 255\<rparr>)"
  by (simp add: restore_fan_def restore_max_def working_io_def example_fan_def MaxPwmValue_def)

section \<open>Start-up and unmatched configurations\<close>

lemma findFanConfig_returns:
  "\<forall>fc \<in> set cfgs. Type fc = FanTypeHwMon \<longrightarrow> Params fc \<noteq> None \<Longrightarrow>
   \<exists>r. findFanConfig cfgs c f = Inr r"
  by (induction cfgs) auto

lemma findSensorConfig_returns:
  "\<forall>sc \<in> set cfgs. Type_sensor sc = SensorTypeHwMon \<longrightarrow> Params_sensor sc \<noteq> None \<Longrightarrow>
   \<exists>r. findSensorConfig cfgs c s = Inr r"
  by (induction cfgs) auto

lemma map_fans_returns:
  assumes "\<forall>fc \<in> set cfgs. Type fc = FanTypeHwMon \<longrightarrow> Params fc \<noteq> None"
  shows "\<exists>fm'. map_fans cfgs c fans fm = Inr (map (bound_fan cfgs c) fans, fm')"
proof (induction fans arbitrary: fm)
  case Nil
  show ?case by simp
next
  case (Cons f fans)
  from findFanConfig_returns [OF assms, of c f] obtain r where r: "findFanConfig cfgs c f = Inr r"
    by blast
  show ?case
  proof (cases r)
    case None
    from Cons.IH [of fm] show ?thesis using r None by (auto simp: bound_fan_def)
  next
    case (Some fc)
    from Cons.IH [of "fmupd (Id fc) (f\<lparr>Config := Some fc\<rparr>) fm"] show ?thesis
      using r Some by (auto simp: bound_fan_def Let_def)
  qed
qed

lemma map_sensors_returns:
  assumes "\<forall>sc \<in> set cfgs. Type_sensor sc = SensorTypeHwMon \<longrightarrow> Params_sensor sc \<noteq> None"
  shows "\<forall>s \<in> set sensors. GetValue (Input s) \<noteq> None \<Longrightarrow>
    \<exists>r. map_sensors cfgs GetValue c sensors sm = Inr r"
proof (induction sensors arbitrary: sm)
  case Nil
  show ?case by simp
next
  case (Cons s sensors)
  from findSensorConfig_returns [OF assms, of c s] obtain r where
    r: "findSensorConfig cfgs c s = Inr r" by blast
  from Cons.prems obtain v where v: "GetValue (Input s) = Some v" by auto
  from Cons.prems have rest: "\<forall>s \<in> set sensors. GetValue (Input s) \<noteq> None" by simp
  show ?case
  proof (cases r)
    case None
    from Cons.IH [OF rest, of sm] show ?thesis using r None by auto
  next
    case (Some sc)
    from Cons.IH [OF rest,
        of "fmupd (Id_sensor sc) (s\<lparr>Config_sensor := Some sc, MovingAvg := v\<rparr>) sm"]
    show ?thesis using r Some v by (auto simp: Let_def)
  qed
qed

lemma MapConfigToControllers_returns:
  assumes "\<forall>fc \<in> set (Fans_config cfg). Type fc = FanTypeHwMon \<longrightarrow> Params fc \<noteq> None"
    and "\<forall>sc \<in> set (Sensors_config cfg). Type_sensor sc = SensorTypeHwMon \<longrightarrow> Params_sensor sc \<noteq> None"
  shows "\<forall>c \<in> set controllers. \<forall>s \<in> set (Sensors c). GetValue (Input s) \<noteq> None \<Longrightarrow>
    \<exists>b. MapConfigToControllers cfg GetValue controllers fm sm = Inr b \<and>
      map Fans (controllers_of b) =
        map (\<lambda>c. map (bound_fan (Fans_config cfg) c) (Fans c)) controllers"
proof (induction controllers arbitrary: fm sm)
  case Nil
  show ?case by simp
next
  case (Cons c controllers)
  from map_fans_returns [OF assms(1), of c "Fans c" fm] obtain fm1 where
    f: "map_fans (Fans_config cfg) c (Fans c) fm =
          Inr (map (bound_fan (Fans_config cfg) c) (Fans c), fm1)" by blast
  from Cons.prems have "\<forall>s \<in> set (Sensors c). GetValue (Input s) \<noteq> None" by simp
  from map_sensors_returns [OF assms(2) this, of c sm] obtain ss sm1 where
    s: "map_sensors (Sensors_config cfg) GetValue c (Sensors c) sm = Inr (ss, sm1)" by fastforce
  from Cons.prems have "\<forall>c \<in> set controllers. \<forall>s \<in> set (Sensors c). GetValue (Input s) \<noteq> None"
    by simp
  from Cons.IH [OF this, of fm1 sm1] obtain b where
    b: "MapConfigToControllers cfg GetValue controllers fm1 sm1 = Inr b"
       "map Fans (controllers_of b) =
          map (\<lambda>c. map (bound_fan (Fans_config cfg) c) (Fans c)) controllers" by blast
  show ?case using f s b by simp
qed

lemma count_fans_zero:
  "count_fans controllers = 0 \<longleftrightarrow> (\<forall>fs \<in> set (map Fans controllers). \<forall>f \<in> set fs. Config f = None)"
  by (auto simp: count_fans_def filter_empty_conv)

text \<open>
  Claim C4, as amended. Let the process run as root, every parameter block unmarshal,
  every sensor read and every curve be accepted, and the discovered fans carry no
  configuration yet. Then the start-up ends with the fatal error "No valid fan
  configurations" if no discovered fan is matched by a fan configuration, and goes through
  otherwise, whatever other configurations match nothing.
\<close>

theorem Run_startup_amended:
  assumes "owner = ''root''"
    and "\<forall>fc \<in> set (Fans_config cfg). Type fc = FanTypeHwMon \<longrightarrow> Params fc \<noteq> None"
    and "\<forall>sc \<in> set (Sensors_config cfg). Type_sensor sc = SensorTypeHwMon \<longrightarrow> Params_sensor sc \<noteq> None"
    and "\<forall>c \<in> set controllers. \<forall>s \<in> set (Sensors c). GetValue (Input s) \<noteq> None"
    and "new_curves NewSpeedCurve (Curves cfg) = None"
    and "\<forall>c \<in> set controllers. \<forall>f \<in> set (Fans c). Config f = None"
  shows "(if \<forall>c \<in> set controllers. \<forall>f \<in> set (Fans c).
              findFanConfig (Fans_config cfg) c f = Inr None
          then Run_startup owner cfg NewSpeedCurve GetValue controllers =
                 Inl (Fatal ''No valid fan configurations, exiting.'')
          else \<exists>b. Run_startup owner cfg NewSpeedCurve GetValue controllers = Inr b)"
proof -
  let ?cfgs = "Fans_config cfg"
  from MapConfigToControllers_returns [OF assms(2,3,4), of fmempty fmempty] obtain b where
    b: "MapConfigToControllers cfg GetValue controllers fmempty fmempty = Inr b"
    and fans: "map Fans (controllers_of b) = map (\<lambda>c. map (bound_fan ?cfgs c) (Fans c)) controllers"
    by blast
  have "count_fans (controllers_of b) = 0 \<longleftrightarrow>
      (\<forall>c \<in> set controllers. \<forall>f \<in> set (Fans c). Config (bound_fan ?cfgs c f) = None)"
    unfolding count_fans_zero fans by auto
  also have "\<dots> \<longleftrightarrow> (\<forall>c \<in> set controllers. \<forall>f \<in> set (Fans c). findFanConfig ?cfgs c f = Inr None)"
  proof -
    have "Config (bound_fan ?cfgs c f) = None \<longleftrightarrow> findFanConfig ?cfgs c f = Inr None"
      if "c \<in> set controllers" "f \<in> set (Fans c)" for c f
      using findFanConfig_returns [OF assms(2), of c f] assms(6) that
      by (auto simp: bound_fan_def split: option.splits)
    then show ?thesis by blast
  qed
  finally have cnt: "count_fans (controllers_of b) = 0 \<longleftrightarrow>
      (\<forall>c \<in> set controllers. \<forall>f \<in> set (Fans c). findFanConfig ?cfgs c f = Inr None)" .
  show ?thesis
    using assms(1,5) b cnt by (simp add: Run_startup_def)
qed

text \<open>
  Claim C4 as stated fails: the fan configuration \<open>gpu_fan\<close> and the sensor configuration
  \<open>board_temp\<close> match no controller, and the start-up goes through with one bound fan; the
  two configurations are in neither map.
\<close>

theorem Run_startup_counterexample:
  "findFanConfig [unmatched_config] example_controller (example_fan (Some fmempty) 2) = Inr None \<and>
   (case Run_startup ''root'' example_configuration (\<lambda>c. None) (\<lambda>p. None) [example_controller] of
      Inl e \<Rightarrow> False
    | Inr b \<Rightarrow>
        count_fans (controllers_of b) = 1 \<and>
        fmlookup (FanMap_of b) ''cpu_fan'' \<noteq> None \<and>
        fmlookup (FanMap_of b) ''gpu_fan'' = None \<and>
        fmlookup (SensorMap_of b) ''board_temp'' = None)"
  by (simp add: Run_startup_def example_configuration_def example_controller_def
      example_config_def unmatched_config_def unmatched_sensor_def example_fan_def
      count_fans_def Let_def)

text \<open>The amended claim C4 on one controller and a configuration of which one fan
  matches, one fan and one sensor do not.\<close>

theorem Run_startup_amended_witness:
  "(\<exists>c \<in> set [example_controller]. \<exists>f \<in> set (Fans c).
       findFanConfig (Fans_config example_configuration) c f \<noteq> Inr None) \<and>
   (\<exists>b. Run_startup ''root'' example_configuration (\<lambda>c. None) (\<lambda>p. None) [example_controller] = Inr b)"
proof -
  have m: "\<exists>c \<in> set [example_controller]. \<exists>f \<in> set (Fans c).
       findFanConfig (Fans_config example_configuration) c f \<noteq> Inr None"
    by (simp add: example_configuration_def example_controller_def example_config_def
        example_fan_def)
  have h: "\<forall>fc \<in> set (Fans_config example_configuration). Type fc = FanTypeHwMon \<longrightarrow> Params fc \<noteq> None"
    "\<forall>sc \<in> set (Sensors_config example_configuration).
        Type_sensor sc = SensorTypeHwMon \<longrightarrow> Params_sensor sc \<noteq> None"
    "\<forall>c \<in> set [example_controller]. \<forall>s \<in> set (Sensors c). (\<lambda>p. None :: float64 option) (Input s) \<noteq> None"
    "new_curves (\<lambda>c. None) (Curves example_configuration) = None"
    "\<forall>c \<in> set [example_controller]. \<forall>f \<in> set (Fans c). Config f = None"
    by (simp_all add: example_configuration_def example_controller_def example_config_def
        unmatched_config_def unmatched_sensor_def example_fan_def)
  from Run_startup_amended [OF refl h] m show ?thesis by auto
qed

end
